theory Spec2Isabelle
  imports Main
begin

section \<open>JavaScript objects as ordered key/value lists\<close>

text \<open>
  The credential store of \<^verbatim>\<open>frontend/src/store/credential.js\<close> keeps five plain
  JavaScript objects and reads them back with \<^verbatim>\<open>Object.keys\<close>, \<^verbatim>\<open>Object.values\<close> and
  \<^verbatim>\<open>Object.entries\<close>, so the order of the properties is observable. An object is an
  association list in insertion order; a well-formed object has each key once. Keys and
  all other strings are lists of characters: the store compares them, concatenates them
  and cuts a prefix off, and does nothing else with them.
\<close>

type_synonym 'a object = "(string \<times> 'a) list"

definition wf_object :: "'a object \<Rightarrow> bool" where
  "wf_object m = distinct (map fst m)"

definition is_digit :: "char \<Rightarrow> bool" where
  "is_digit c = (48 \<le> (of_char c :: nat) \<and> (of_char c :: nat) \<le> 57)"

definition index_value :: "string \<Rightarrow> nat" where
  "index_value k = fold (\<lambda>c n. 10 * n + ((of_char c :: nat) - 48)) k 0"

text \<open>
  An array index is the canonical decimal string of an integer below \<open>2^32 - 1\<close>.
  Own property keys are enumerated with the array indices first, in ascending numeric
  order, followed by the other string keys in insertion order.
\<close>

definition is_array_index :: "string \<Rightarrow> bool" where
  "is_array_index k =
     (k \<noteq> [] \<and> list_all is_digit k \<and> (k = ''0'' \<or> hd k \<noteq> CHR ''0'')
      \<and> index_value k < 2 ^ 32 - 1)"

definition object_entries :: "'a object \<Rightarrow> (string \<times> 'a) list" where
  "object_entries m =
     sort_key (\<lambda>e. index_value (fst e)) (filter (\<lambda>e. is_array_index (fst e)) m)
     @ filter (\<lambda>e. \<not> is_array_index (fst e)) m"

definition object_keys :: "'a object \<Rightarrow> string list" where
  "object_keys m = map fst (object_entries m)"

definition object_values :: "'a object \<Rightarrow> 'a list" where
  "object_values m = map snd (object_entries m)"

text \<open>\<^verbatim>\<open>obj[k]\<close> and lodash \<^verbatim>\<open>get(obj, [k])\<close>: the value, or undefined.\<close>

definition obj_get :: "'a object \<Rightarrow> string \<Rightarrow> 'a option" where
  "obj_get m k = map_of m k"

text \<open>\<^verbatim>\<open>obj[k] = v\<close>: an existing property keeps its place, a new one goes last.\<close>

fun obj_assign :: "string \<Rightarrow> 'a \<Rightarrow> 'a object \<Rightarrow> 'a object" where
  "obj_assign k v [] = [(k, v)]"
| "obj_assign k v (p # ps) = (if fst p = k then (k, v) # ps else p # obj_assign k v ps)"

text \<open>\<^verbatim>\<open>delete obj[k]\<close>.\<close>

definition obj_delete :: "string \<Rightarrow> 'a object \<Rightarrow> 'a object" where
  "obj_delete k m = filter (\<lambda>e. fst e \<noteq> k) m"

text \<open>
  lodash \<^verbatim>\<open>set(obj, [k], v)\<close> with a path of one key: an assignment of the property,
  except that lodash leaves the object alone for the three keys it treats as unsafe.
\<close>

definition lodash_set :: "'a object \<Rightarrow> string \<Rightarrow> 'a \<Rightarrow> 'a object" where
  "lodash_set m k v =
     (if k = ''__proto__'' \<or> k = ''constructor'' \<or> k = ''prototype'' then m
      else obj_assign k v m)"

text \<open>\<^verbatim>\<open>String.prototype.startsWith\<close>.\<close>

definition startsWith :: "string \<Rightarrow> string \<Rightarrow> bool" where
  "startsWith s p = (take (length p) s = p)"


section \<open>Resources\<close>

text \<open>
  The fields of a resource that the store reads or writes. Every resource has its
  metadata, with a namespace, a name and a uid that are strings, as the objects of the
  backend have; so reading \<^verbatim>\<open>item.metadata.name\<close> never fails. \<open>labels\<close> is the label
  object in insertion order, \<open>None\<close> when the metadata carries none; \<open>kind\<close> and
  \<open>apiVersion\<close> are \<open>None\<close> when the property is not set. \<open>rest\<close> stands for all
  properties the store passes through without looking at them.
\<close>

record object_meta =
  namespace :: string
  name :: string
  uid :: string
  labels :: "string object option"

record provider_info =
  ptype :: string

record secret_ref =
  ref_name :: string
  ref_namespace :: string

record credentials_ref =
  cref_name :: string
  cref_namespace :: string
  cref_kind :: string
  cref_apiVersion :: "string option"

record resource =
  kind :: "string option"
  apiVersion :: "string option"
  metadata :: object_meta
  provider :: "provider_info option"
  secretRef :: "secret_ref option"
  credentialsRef :: "credentials_ref option"
  rest :: "(string \<times> string) list"

record state =
  secretBindings :: "resource object"
  secrets :: "resource object"
  credentialsBindings :: "resource object"
  workloadIdentities :: "resource object"
  quotas :: "resource object"

datatype error = ApiError string | TypeError


section \<open>Key index and capability extractor\<close>

definition namespaceNameKey :: "object_meta \<Rightarrow> string" where
  "namespaceNameKey m = namespace m @ ''/'' @ name m"

definition providerPrefix :: string where
  "providerPrefix = ''provider.shoot.gardener.cloud/''"

definition providerTypesFromLabels :: "string object option \<Rightarrow> string list" where
  "providerTypesFromLabels ls =
     map (\<lambda>e. drop (length providerPrefix) (fst e))
       (filter (\<lambda>e. snd e = ''true'' \<and> startsWith (fst e) providerPrefix)
          (object_entries (case ls of None \<Rightarrow> [] | Some l \<Rightarrow> l)))"


section \<open>The store\<close>

definition reset :: "state \<Rightarrow> state" where
  "reset s = s\<lparr>secretBindings := [], secrets := [], credentialsBindings := [],
               workloadIdentities := [], quotas := []\<rparr>"

text \<open>The two object literals that make a virtual binding, for a secret and for a
  workload identity.\<close>

definition secretVirtualBinding :: "resource \<Rightarrow> string \<Rightarrow> resource" where
  "secretVirtualBinding item t =
     \<lparr>kind = Some ''Secret'',
      apiVersion = None,
      metadata = (metadata item)\<lparr>uid := uid (metadata item) @ ''-'' @ t\<rparr>,
      provider = Some \<lparr>ptype = t\<rparr>,
      secretRef = Some \<lparr>ref_name = name (metadata item),
                        ref_namespace = namespace (metadata item)\<rparr>,
      credentialsRef = None,
      rest = []\<rparr>"

definition workloadIdentityVirtualBinding :: "resource \<Rightarrow> string \<Rightarrow> resource" where
  "workloadIdentityVirtualBinding item t =
     \<lparr>kind = Some ''WorkloadIdentity'',
      apiVersion = apiVersion item,
      metadata = (metadata item)\<lparr>uid := uid (metadata item) @ ''-'' @ t\<rparr>,
      provider = Some \<lparr>ptype = t\<rparr>,
      secretRef = None,
      credentialsRef = Some \<lparr>cref_name = name (metadata item),
                             cref_namespace = namespace (metadata item),
                             cref_kind = ''WorkloadIdentity'',
                             cref_apiVersion = apiVersion item\<rparr>,
      rest = []\<rparr>"

text \<open>The bodies of the five \<^verbatim>\<open>forEach\<close> loops of \<^verbatim>\<open>_setCredentials\<close>.\<close>

definition setSecretBinding :: "resource \<Rightarrow> state \<Rightarrow> state" where
  "setSecretBinding item s =
     (let key = namespaceNameKey (metadata item);
          item' = item\<lparr>kind := Some ''SecretBinding''\<rparr>
      in s\<lparr>secretBindings := lodash_set (secretBindings s) key item'\<rparr>)"

definition setSecret :: "resource \<Rightarrow> state \<Rightarrow> state" where
  "setSecret item s =
     (let key = namespaceNameKey (metadata item);
          item' = item\<lparr>kind := Some ''Secret''\<rparr>;
          s1 = s\<lparr>secrets := lodash_set (secrets s) key item'\<rparr>
      in fold (\<lambda>t s2. s2\<lparr>credentialsBindings :=
                  lodash_set (credentialsBindings s2) (key @ ''/'' @ t)
                    (secretVirtualBinding item' t)\<rparr>)
           (providerTypesFromLabels (labels (metadata item'))) s1)"

definition setCredentialsBinding :: "resource \<Rightarrow> state \<Rightarrow> state" where
  "setCredentialsBinding item s =
     (let key = namespaceNameKey (metadata item);
          item' = item\<lparr>kind := Some ''CredentialsBinding''\<rparr>
      in s\<lparr>credentialsBindings := lodash_set (credentialsBindings s) key item'\<rparr>)"

definition setWorkloadIdentity :: "resource \<Rightarrow> state \<Rightarrow> state" where
  "setWorkloadIdentity item s =
     (let key = namespaceNameKey (metadata item);
          item' = item\<lparr>kind := Some ''WorkloadIdentity''\<rparr>;
          s1 = s\<lparr>workloadIdentities := lodash_set (workloadIdentities s) key item'\<rparr>
      in fold (\<lambda>t s2. s2\<lparr>credentialsBindings :=
                  lodash_set (credentialsBindings s2) (key @ ''/'' @ t)
                    (workloadIdentityVirtualBinding item' t)\<rparr>)
           (providerTypesFromLabels (labels (metadata item'))) s1)"

definition setQuota :: "resource \<Rightarrow> state \<Rightarrow> state" where
  "setQuota item s =
     (let key = namespaceNameKey (metadata item)
      in s\<lparr>quotas := lodash_set (quotas s) key item\<rparr>)"

text \<open>\<^verbatim>\<open>xs?.forEach(f)\<close>: nothing happens when the collection is missing.\<close>

definition forEach_opt :: "'a list option \<Rightarrow> ('a \<Rightarrow> 's \<Rightarrow> 's) \<Rightarrow> 's \<Rightarrow> 's" where
  "forEach_opt xs f s = (case xs of None \<Rightarrow> s | Some l \<Rightarrow> fold f l s)"

record credentials =
  c_secretBindings :: "resource list option"
  c_secrets :: "resource list option"
  c_credentialsBindings :: "resource list option"
  c_workloadIdentities :: "resource list option"
  c_quotas :: "resource list option"

definition setCredentials :: "credentials \<Rightarrow> state \<Rightarrow> state" where
  "setCredentials c s =
     (let s0 = reset s;
          s1 = forEach_opt (c_secretBindings c) setSecretBinding s0;
          s2 = forEach_opt (c_secrets c) setSecret s1;
          s3 = forEach_opt (c_credentialsBindings c) setCredentialsBinding s2;
          s4 = forEach_opt (c_workloadIdentities c) setWorkloadIdentity s3
      in forEach_opt (c_quotas c) setQuota s4)"

text \<open>
  \<^verbatim>\<open>fetchCredentials\<close>: the answer of the data source is an argument, \<open>Inl\<close> when the
  call fails. The result is the error thrown to the caller, if any, and the store.
\<close>

definition fetchCredentials :: "error + credentials \<Rightarrow> state \<Rightarrow> error option \<times> state" where
  "fetchCredentials response s =
     (case response of
        Inr c \<Rightarrow> (None, setCredentials c s)
      | Inl err \<Rightarrow> (Some err, reset s))"

definition cloudProviderBindingList :: "state \<Rightarrow> resource list" where
  "cloudProviderBindingList s =
     object_values (secretBindings s) @ object_values (credentialsBindings s)"

definition credentialsBindingList :: "state \<Rightarrow> resource list" where
  "credentialsBindingList s =
     filter (\<lambda>b. kind b = Some ''CredentialsBinding'') (object_values (credentialsBindings s))"


section \<open>Single-resource updates\<close>

text \<open>
  One step of the loop over \<^verbatim>\<open>Object.keys(state.credentialsBindings)\<close> that drops the
  virtual bindings of the secret stored under \<open>key\<close>. In JavaScript the keys are those of
  the object itself, each once, so the property read at \<open>k\<close> is there when its turn
  comes. Only a list with a key twice can make the read come back empty here, and the
  step then leaves the list as it is.
\<close>

definition dropVirtualStep :: "string \<Rightarrow> string \<Rightarrow> resource object \<Rightarrow> resource object" where
  "dropVirtualStep key k cb =
     (if k = key \<or> startsWith k (key @ ''/'') then
        (case obj_get cb k of
           Some item \<Rightarrow> if kind item = Some ''Secret'' then obj_delete k cb else cb
         | None \<Rightarrow> cb)
      else cb)"

text \<open>
  The entries that the loop above deletes: those stored under the secret's key or under
  a key that starts with it and a slash, and whose kind is \<^verbatim>\<open>Secret\<close>.
\<close>

definition virtualOfSecret :: "string \<Rightarrow> string \<times> resource \<Rightarrow> bool" where
  "virtualOfSecret key e = ((fst e = key \<or> startsWith (fst e) (key @ ''/'')) \<and> kind (snd e) = Some ''Secret'')"

definition refreshVirtualBindings :: "resource \<Rightarrow> resource object \<Rightarrow> resource object" where
  "refreshVirtualBindings secret cb =
     (let key = namespaceNameKey (metadata secret);
          cb1 = fold (dropVirtualStep key) (object_keys cb) cb
      in fold (\<lambda>t cb2. lodash_set cb2 (key @ ''/'' @ t) (secretVirtualBinding secret t))
           (providerTypesFromLabels (labels (metadata secret))) cb1)"

definition updateCloudProviderCredential ::
  "resource option \<Rightarrow> resource option \<Rightarrow> state \<Rightarrow> state" where
  "updateCloudProviderCredential binding secret s =
     (let s1 = (case binding of
                  None \<Rightarrow> s
                | Some b \<Rightarrow>
                    let key = namespaceNameKey (metadata b) in
                    if kind b = Some ''SecretBinding'' then
                      s\<lparr>secretBindings := lodash_set (secretBindings s) key b\<rparr>
                    else if kind b = Some ''CredentialsBinding'' then
                      s\<lparr>credentialsBindings := lodash_set (credentialsBindings s) key b\<rparr>
                    else s)
      in case secret of
           None \<Rightarrow> s1
         | Some x \<Rightarrow>
             let key = namespaceNameKey (metadata x);
                 s2 = s1\<lparr>secrets := lodash_set (secrets s1) key x\<rparr>
             in s2\<lparr>credentialsBindings := refreshVirtualBindings x (credentialsBindings s2)\<rparr>)"

text \<open>
  \<^verbatim>\<open>createCredential\<close> and \<^verbatim>\<open>updateCredential\<close>: the answer of the data source is an
  argument again. The result is either the error thrown or the message handed to the
  notification sink, and the store.
\<close>

record credential_response =
  r_binding :: "resource option"
  r_secret :: "resource option"

record credential_params =
  p_binding :: "resource option"
  p_secret :: "resource option"

definition createCredential ::
  "error + credential_response \<Rightarrow> state \<Rightarrow> (error + string) \<times> state" where
  "createCredential response s =
     (case response of
        Inl err \<Rightarrow> (Inl err, s)
      | Inr r \<Rightarrow>
          let s' = updateCloudProviderCredential (r_binding r) (r_secret r) s in
          (case r_binding r of
             None \<Rightarrow> (Inl TypeError, s')
           | Some b \<Rightarrow>
               (Inr (''Cloud Provider credential '' @ name (metadata b) @ '' created''), s')))"

definition updateCredential ::
  "credential_params \<Rightarrow> error + credential_response \<Rightarrow> state \<Rightarrow> (error + string) \<times> state" where
  "updateCredential params response s =
     (case response of
        Inl err \<Rightarrow> (Inl err, s)
      | Inr r \<Rightarrow>
          let s' = updateCloudProviderCredential None (r_secret r) s;
              bname = (case p_binding params of None \<Rightarrow> [] | Some b \<Rightarrow> name (metadata b))
          in if bname \<noteq> [] then
               (Inr (''Cloud Provider credential '' @ bname @ '' updated''), s')
             else
               (case p_secret params of
                  None \<Rightarrow> (Inl TypeError, s')
                | Some x \<Rightarrow>
                    (Inr (''Cloud Provider credential '' @ name (metadata x) @ '' updated''), s')))"


section \<open>Notions for the statements and their proofs\<close>

text \<open>A store in which every mapping has each key once, as a JavaScript object has.\<close>

definition wf_state :: "state \<Rightarrow> bool" where
  "wf_state s =
     (wf_object (secretBindings s) \<and> wf_object (secrets s) \<and> wf_object (credentialsBindings s)
      \<and> wf_object (workloadIdentities s) \<and> wf_object (quotas s))"

text \<open>
  The inner loop \<^verbatim>\<open>providerTypesFromLabels(...).forEach(type => set(...))\<close> on the
  credentials-bindings mapping alone: one assignment per capability tag.
\<close>

definition assignVirtuals :: "string \<Rightarrow> (string \<Rightarrow> resource) \<Rightarrow> string list \<Rightarrow> resource object \<Rightarrow> resource object" where
  "assignVirtuals key g ts m = fold (\<lambda>t m. obj_assign (key @ ''/'' @ t) (g t) m) ts m"


text \<open>A missing collection read as an empty one.\<close>

definition orEmpty :: "'a list option \<Rightarrow> 'a list" where
  "orEmpty xs = (case xs of None \<Rightarrow> [] | Some l \<Rightarrow> l)"

text \<open>
  What one pass of a loop of \<^verbatim>\<open>_setCredentials\<close> does to the credentials-bindings
  mapping: the virtual bindings of a secret, those of a workload identity, and an
  explicit binding.
\<close>

definition secretVirtuals :: "resource \<Rightarrow> resource object \<Rightarrow> resource object" where
  "secretVirtuals item m =
     assignVirtuals (namespaceNameKey (metadata item))
       (secretVirtualBinding (item\<lparr>kind := Some ''Secret''\<rparr>))
       (providerTypesFromLabels (labels (metadata item))) m"

definition workloadIdentityVirtuals :: "resource \<Rightarrow> resource object \<Rightarrow> resource object" where
  "workloadIdentityVirtuals item m =
     assignVirtuals (namespaceNameKey (metadata item))
       (workloadIdentityVirtualBinding (item\<lparr>kind := Some ''WorkloadIdentity''\<rparr>))
       (providerTypesFromLabels (labels (metadata item))) m"

definition explicitBinding :: "resource \<Rightarrow> resource object \<Rightarrow> resource object" where
  "explicitBinding item m =
     obj_assign (namespaceNameKey (metadata item)) (item\<lparr>kind := Some ''CredentialsBinding''\<rparr>) m"

text \<open>
  A record \<open>v\<close> stored under \<open>k\<close> is the virtual binding of \<open>owner\<close> for the tag \<open>t\<close>:
  the storage key is the owner's key, a slash and the tag, while the metadata of \<open>v\<close> has
  the owner's namespace and name and the owner's uid followed by a dash and the tag, and
  is the owner's metadata in everything else, so that the key computed from the metadata
  of \<open>v\<close> is the owner's.
\<close>

definition carriesOwnerIdentity :: "resource \<Rightarrow> string \<Rightarrow> string \<Rightarrow> resource \<Rightarrow> bool" where
  "carriesOwnerIdentity owner t k v =
     (k = namespaceNameKey (metadata owner) @ ''/'' @ t
      \<and> namespace (metadata v) = namespace (metadata owner)
      \<and> name (metadata v) = name (metadata owner)
      \<and> uid (metadata v) = uid (metadata owner) @ ''-'' @ t
      \<and> metadata v = (metadata owner)\<lparr>uid := uid (metadata owner) @ ''-'' @ t\<rparr>
      \<and> namespaceNameKey (metadata v) = namespaceNameKey (metadata owner)
      \<and> namespaceNameKey (metadata v) \<noteq> k)"

text \<open>The entries that the loops of \<^verbatim>\<open>_setCredentials\<close> write into the
  credentials-bindings mapping.\<close>

definition secretWrites :: "resource \<Rightarrow> (string \<times> resource) set" where
  "secretWrites item =
     (\<lambda>t. (namespaceNameKey (metadata item) @ ''/'' @ t,
           secretVirtualBinding (item\<lparr>kind := Some ''Secret''\<rparr>) t)) `
       set (providerTypesFromLabels (labels (metadata item)))"

definition workloadIdentityWrites :: "resource \<Rightarrow> (string \<times> resource) set" where
  "workloadIdentityWrites item =
     (\<lambda>t. (namespaceNameKey (metadata item) @ ''/'' @ t,
           workloadIdentityVirtualBinding (item\<lparr>kind := Some ''WorkloadIdentity''\<rparr>) t)) `
       set (providerTypesFromLabels (labels (metadata item)))"

definition explicitWrite :: "resource \<Rightarrow> string \<times> resource" where
  "explicitWrite item =
     (namespaceNameKey (metadata item), item\<lparr>kind := Some ''CredentialsBinding''\<rparr>)"


text \<open>The assignment of one loop pass to its own mapping, with and without the kind.\<close>

definition storeTagged :: "string \<Rightarrow> resource \<Rightarrow> resource object \<Rightarrow> resource object" where
  "storeTagged knd item m =
     obj_assign (namespaceNameKey (metadata item)) (item\<lparr>kind := Some knd\<rparr>) m"

definition storePlain :: "resource \<Rightarrow> resource object \<Rightarrow> resource object" where
  "storePlain item m = obj_assign (namespaceNameKey (metadata item)) item m"


section \<open>The full replacement as the specification words it\<close>

text \<open>
  A second model, written from the specification and not from the code, to compare
  \<^verbatim>\<open>_setCredentials\<close> with. \<open>spec_upsert\<close> inserts or replaces a record in the mapping
  selected by the kind, under the record's key, and tags the record's kind if the source
  did not set it. \<open>spec_synthesize\<close> removes every entry of the credentials-bindings
  mapping whose key is the owner's key or starts with the owner's key and a slash and
  whose kind is the owner's kind, and then inserts one virtual binding per capability tag
  of the owner, with the owner's kind. \<open>spec_replaceAll\<close> is the reset, then the upsert of
  every element of every collection, and only then the synthesis for each secret and
  each workload identity that the upserts have put into their mappings.
\<close>

definition spec_upsert :: "string \<Rightarrow> resource \<Rightarrow> state \<Rightarrow> state" where
  "spec_upsert knd record s =
     (let key = namespaceNameKey (metadata record);
          tagged = (if kind record = None then record\<lparr>kind := Some knd\<rparr> else record)
      in if knd = ''SecretBinding'' then
           s\<lparr>secretBindings := obj_assign key tagged (secretBindings s)\<rparr>
         else if knd = ''Secret'' then
           s\<lparr>secrets := obj_assign key tagged (secrets s)\<rparr>
         else if knd = ''CredentialsBinding'' then
           s\<lparr>credentialsBindings := obj_assign key tagged (credentialsBindings s)\<rparr>
         else if knd = ''WorkloadIdentity'' then
           s\<lparr>workloadIdentities := obj_assign key tagged (workloadIdentities s)\<rparr>
         else if knd = ''Quota'' then
           s\<lparr>quotas := obj_assign key tagged (quotas s)\<rparr>
         else s)"

definition spec_virtualBinding :: "resource \<Rightarrow> string \<Rightarrow> resource" where
  "spec_virtualBinding owner t =
     (if kind owner = Some ''WorkloadIdentity'' then workloadIdentityVirtualBinding owner t
      else secretVirtualBinding owner t)\<lparr>kind := kind owner\<rparr>"

definition spec_synthesize :: "resource \<Rightarrow> state \<Rightarrow> state" where
  "spec_synthesize owner s =
     (let ownerKey = namespaceNameKey (metadata owner);
          kept = filter (\<lambda>e. \<not> ((fst e = ownerKey \<or> startsWith (fst e) (ownerKey @ ''/''))
                                \<and> kind (snd e) = kind owner)) (credentialsBindings s);
          tags = providerTypesFromLabels (labels (metadata owner))
      in s\<lparr>credentialsBindings :=
            fold (\<lambda>t m. obj_assign (ownerKey @ ''/'' @ t) (spec_virtualBinding owner t) m) tags kept\<rparr>)"

definition spec_replaceAll :: "credentials \<Rightarrow> state \<Rightarrow> state" where
  "spec_replaceAll c s =
     (let s0 = reset s;
          s1 = fold (spec_upsert ''SecretBinding'') (orEmpty (c_secretBindings c)) s0;
          s2 = fold (spec_upsert ''Secret'') (orEmpty (c_secrets c)) s1;
          s3 = fold (spec_upsert ''CredentialsBinding'') (orEmpty (c_credentialsBindings c)) s2;
          s4 = fold (spec_upsert ''WorkloadIdentity'') (orEmpty (c_workloadIdentities c)) s3;
          s5 = fold (spec_upsert ''Quota'') (orEmpty (c_quotas c)) s4;
          s6 = fold spec_synthesize (map snd (secrets s5)) s5
      in fold spec_synthesize (map snd (workloadIdentities s6)) s6)"

text \<open>The two passes of \<open>spec_replaceAll\<close> on one mapping.\<close>

definition specStore :: "string \<Rightarrow> resource \<Rightarrow> resource object \<Rightarrow> resource object" where
  "specStore knd item m =
     obj_assign (namespaceNameKey (metadata item))
       (if kind item = None then item\<lparr>kind := Some knd\<rparr> else item) m"

definition specSynth :: "resource \<Rightarrow> resource object \<Rightarrow> resource object" where
  "specSynth owner m =
     assignVirtuals (namespaceNameKey (metadata owner)) (spec_virtualBinding owner)
       (providerTypesFromLabels (labels (metadata owner)))
       (filter (\<lambda>e. \<not> ((fst e = namespaceNameKey (metadata owner)
                        \<or> startsWith (fst e) (namespaceNameKey (metadata owner) @ ''/''))
                      \<and> kind (snd e) = kind owner)) m)"

text \<open>
  An entry that \<open>spec_synthesize\<close> removes for an owner whose kind is \<open>knd\<close>.
\<close>

definition synthesisRemoves :: "string \<Rightarrow> resource \<Rightarrow> string \<times> resource \<Rightarrow> bool" where
  "synthesisRemoves knd owner e =
     ((fst e = namespaceNameKey (metadata owner)
        \<or> startsWith (fst e) (namespaceNameKey (metadata owner) @ ''/''))
      \<and> kind (snd e) = Some knd)"

text \<open>
  The inputs on which the credentials-bindings mappings of the two models are compared:
  no slash in the namespace or the name of a secret, a credentials binding or a workload
  identity; no two secrets and no two workload identities with the same key; each of
  these records without a kind or with the kind of its collection. Secret bindings and
  quotas have no part in it. \<open>withEmpty\<close> replaces each missing collection by the empty
  one.
\<close>

definition plainIdentity :: "resource \<Rightarrow> bool" where
  "plainIdentity item =
     (CHR ''/'' \<notin> set (namespace (metadata item)) \<and> CHR ''/'' \<notin> set (name (metadata item)))"

definition kindIfSet :: "string \<Rightarrow> resource \<Rightarrow> bool" where
  "kindIfSet knd item = (kind item = None \<or> kind item = Some knd)"

definition regularBindings :: "credentials \<Rightarrow> bool" where
  "regularBindings c =
     (list_all (kindIfSet ''Secret'') (orEmpty (c_secrets c))
      \<and> list_all (kindIfSet ''CredentialsBinding'') (orEmpty (c_credentialsBindings c))
      \<and> list_all (kindIfSet ''WorkloadIdentity'') (orEmpty (c_workloadIdentities c))
      \<and> list_all plainIdentity (orEmpty (c_secrets c))
      \<and> list_all plainIdentity (orEmpty (c_credentialsBindings c))
      \<and> list_all plainIdentity (orEmpty (c_workloadIdentities c))
      \<and> distinct (map (\<lambda>i. namespaceNameKey (metadata i)) (orEmpty (c_secrets c)))
      \<and> distinct (map (\<lambda>i. namespaceNameKey (metadata i)) (orEmpty (c_workloadIdentities c))))"

definition withEmpty :: "credentials \<Rightarrow> credentials" where
  "withEmpty c =
     \<lparr>c_secretBindings = Some (orEmpty (c_secretBindings c)),
      c_secrets = Some (orEmpty (c_secrets c)),
      c_credentialsBindings = Some (orEmpty (c_credentialsBindings c)),
      c_workloadIdentities = Some (orEmpty (c_workloadIdentities c)),
      c_quotas = Some (orEmpty (c_quotas c))\<rparr>"


section \<open>Example data\<close>

text \<open>Small resources and stores on which the theorems below are instantiated.\<close>

definition ex_resource :: "string option \<Rightarrow> string \<Rightarrow> string \<Rightarrow> string \<Rightarrow> string list \<Rightarrow> resource" where
  "ex_resource k ns n u tags =
     \<lparr>kind = k, apiVersion = None,
      metadata = \<lparr>namespace = ns, name = n, uid = u,
                  labels = Some (map (\<lambda>t. (providerPrefix @ t, ''true'')) tags)\<rparr>,
      provider = None, secretRef = None, credentialsRef = None, rest = []\<rparr>"

definition ex_secret :: "string list \<Rightarrow> resource" where
  "ex_secret tags = ex_resource (Some ''Secret'') ''a'' ''s1'' ''u1'' tags"

definition ex_binding :: resource where
  "ex_binding = ex_resource (Some ''CredentialsBinding'') ''a'' ''s1'' ''u0'' []"

definition ex_workloadIdentity :: "string list \<Rightarrow> resource" where
  "ex_workloadIdentity tags = ex_resource (Some ''WorkloadIdentity'') ''a'' ''wi1'' ''u2'' tags"

definition ex_state :: "resource object \<Rightarrow> state" where
  "ex_state cb = \<lparr>secretBindings = [], secrets = [], credentialsBindings = cb,
                  workloadIdentities = [], quotas = []\<rparr>"


definition ex_credentials :: "resource list option \<Rightarrow> resource list option \<Rightarrow> resource list option \<Rightarrow> credentials" where
  "ex_credentials ss cbs wis =
     \<lparr>c_secretBindings = None, c_secrets = ss, c_credentialsBindings = cbs,
      c_workloadIdentities = wis, c_quotas = None\<rparr>"


definition ex_fetched :: "resource list option \<Rightarrow> credentials" where
  "ex_fetched other =
     \<lparr>c_secretBindings = other,
      c_secrets = Some [\<lparr>kind = None, apiVersion = None,
          metadata = \<lparr>namespace = ''a'', name = ''s1'', uid = ''u1'',
            labels = Some [(''provider.shoot.gardener.cloud/aws'', ''true'')]\<rparr>,
          provider = None, secretRef = None, credentialsRef = None, rest = []\<rparr>],
      c_credentialsBindings = other, c_workloadIdentities = other, c_quotas = other\<rparr>"

definition ex_virtual :: resource where
  "ex_virtual =
     \<lparr>kind = Some ''Secret'', apiVersion = None,
      metadata = \<lparr>namespace = ''a'', name = ''s1'', uid = ''u1-aws'',
        labels = Some [(''provider.shoot.gardener.cloud/aws'', ''true'')]\<rparr>,
      provider = Some \<lparr>ptype = ''aws''\<rparr>,
      secretRef = Some \<lparr>ref_name = ''s1'', ref_namespace = ''a''\<rparr>,
      credentialsRef = None, rest = []\<rparr>"


definition ex_mixed :: credentials where
  "ex_mixed = ex_credentials (Some [ex_secret [''aws'']]) (Some [ex_binding]) None"

text \<open>One record in every collection; the quota comes with the kind given, or without.\<close>

definition ex_full :: "string option \<Rightarrow> credentials" where
  "ex_full quotaKind =
     \<lparr>c_secretBindings = Some [ex_resource None ''a'' ''sb1'' ''u4'' []],
      c_secrets = Some [ex_secret [''aws'']],
      c_credentialsBindings = Some [ex_binding],
      c_workloadIdentities = Some [ex_workloadIdentity [''gcp'']],
      c_quotas = Some [ex_resource quotaKind ''a'' ''q1'' ''u3'' []]\<rparr>"

definition ex_duplicate :: credentials where
  "ex_duplicate = ex_credentials (Some [ex_secret [''aws''], ex_secret [''gcp'']]) None None"


section \<open>Facts about objects and keys\<close>

lemma map_of_obj_assign: "map_of (obj_assign k v m) = (map_of m)(k \<mapsto> v)"
  by (induction m) (auto simp: fun_eq_iff)

lemma slash_in_key: "CHR ''/'' \<in> set (namespaceNameKey m)"
  by (simp add: namespaceNameKey_def)

lemma lodash_set_slash: "CHR ''/'' \<in> set k \<Longrightarrow> lodash_set m k v = obj_assign k v m"
  by (auto simp: lodash_set_def)

lemma startsWith_iff: "startsWith s p \<longleftrightarrow> (\<exists>r. s = p @ r)"
  unfolding startsWith_def
  by (metis append_eq_conv_conj append_take_drop_id)

lemma startsWith_strip: "startsWith s p \<Longrightarrow> p @ drop (length p) s = s"
  unfolding startsWith_def by (metis append_take_drop_id)

lemma prefixed_not_index: "startsWith k providerPrefix \<Longrightarrow> \<not> is_array_index k"
  by (cases k) (auto simp: startsWith_def providerPrefix_def is_array_index_def is_digit_def)

lemma filter_object_entries:
  assumes "\<And>e. P e \<Longrightarrow> \<not> is_array_index (fst e)"
  shows "filter P (object_entries m) = filter P m"
proof -
  have "filter P (sort_key (\<lambda>e. index_value (fst e))
          (filter (\<lambda>e. is_array_index (fst e)) m)) = []"
    using assms by (auto simp: filter_empty_conv)
  moreover have "filter P (filter (\<lambda>e. \<not> is_array_index (fst e)) m) = filter P m"
    using assms by (auto intro: filter_cong)
  ultimately show ?thesis by (simp add: object_entries_def)
qed


lemma keys_obj_assign:
  "map fst (obj_assign k v m) = (if k \<in> fst ` set m then map fst m else map fst m @ [k])"
  by (induction m) auto

lemma wf_obj_assign: "wf_object (obj_assign k v m) = wf_object m"
  by (auto simp: wf_object_def keys_obj_assign)

lemma wf_filter: "wf_object m \<Longrightarrow> wf_object (filter P m)"
  by (simp add: wf_object_def distinct_map_filter)

lemma set_object_entries: "set (object_entries m) = set m"
  by (auto simp: object_entries_def)

lemma set_object_keys: "set (object_keys m) = fst ` set m"
  by (simp add: object_keys_def set_object_entries)

lemma map_of_filter_wf:
  "wf_object m \<Longrightarrow> map_of (filter P m) k =
     (case map_of m k of None \<Rightarrow> None | Some v \<Rightarrow> if P (k, v) then Some v else None)"
proof (induction m)
  case Nil
  then show ?case by simp
next
  case (Cons p m)
  then have d: "fst p \<notin> fst ` set m" and w: "wf_object m"
    by (auto simp: wf_object_def)
  have n: "map_of m (fst p) = None" using d by (simp add: map_of_eq_None_iff)
  show ?case
  proof (cases "k = fst p")
    case True
    have "map_of (filter P m) (fst p) = None"
      using d by (auto simp: map_of_eq_None_iff)
    then show ?thesis using True by (cases p) auto
  next
    case False
    then show ?thesis using Cons.IH [OF w] by (cases p) auto
  qed
qed

lemma dropVirtualStep_filter:
  assumes "wf_object cb"
  shows "dropVirtualStep key k cb = filter (\<lambda>e. \<not> (fst e = k \<and> virtualOfSecret key e)) cb"
proof -
  have d: "distinct (map fst cb)" using assms by (simp add: wf_object_def)
  show ?thesis
  proof (cases "k = key \<or> startsWith k (key @ ''/'')")
    case False
    then have "filter (\<lambda>e. \<not> (fst e = k \<and> virtualOfSecret key e)) cb = cb"
      by (auto simp: virtualOfSecret_def filter_id_conv)
    then show ?thesis using False by (simp add: dropVirtualStep_def)
  next
    case True
    show ?thesis
    proof (cases "map_of cb k")
      case None
      then have "k \<notin> fst ` set cb" by (simp add: map_of_eq_None_iff)
      then have "filter (\<lambda>e. \<not> (fst e = k \<and> virtualOfSecret key e)) cb = cb"
        by (auto simp: filter_id_conv)
      then show ?thesis using True None by (simp add: dropVirtualStep_def obj_get_def)
    next
      case (Some item)
      then have u: "\<And>e. e \<in> set cb \<Longrightarrow> fst e = k \<Longrightarrow> snd e = item"
        using d by (metis map_of_eq_Some_iff option.inject prod.collapse)
      show ?thesis
      proof (cases "kind item = Some ''Secret''")
        case yes: True
        have "filter (\<lambda>e. \<not> (fst e = k \<and> virtualOfSecret key e)) cb = filter (\<lambda>e. fst e \<noteq> k) cb"
          by (rule filter_cong) (use u True yes in \<open>auto simp: virtualOfSecret_def\<close>)
        then show ?thesis
          using True Some yes by (simp add: dropVirtualStep_def obj_get_def obj_delete_def)
      next
        case no: False
        have "filter (\<lambda>e. \<not> (fst e = k \<and> virtualOfSecret key e)) cb = cb"
          using u no by (auto simp: virtualOfSecret_def filter_id_conv)
        then show ?thesis
          using True Some no by (simp add: dropVirtualStep_def obj_get_def)
      qed
    qed
  qed
qed

lemma fold_dropVirtualStep:
  "wf_object cb \<Longrightarrow>
   fold (dropVirtualStep key) ks cb = filter (\<lambda>e. \<not> (fst e \<in> set ks \<and> virtualOfSecret key e)) cb"
proof (induction ks arbitrary: cb)
  case Nil
  then show ?case by simp
next
  case (Cons k ks)
  let ?cb = "filter (\<lambda>e. \<not> (fst e = k \<and> virtualOfSecret key e)) cb"
  have "fold (dropVirtualStep key) (k # ks) cb = fold (dropVirtualStep key) ks ?cb"
    by (simp add: dropVirtualStep_filter [OF Cons.prems])
  also have "\<dots> = filter (\<lambda>e. \<not> (fst e \<in> set ks \<and> virtualOfSecret key e)) ?cb"
    by (rule Cons.IH) (rule wf_filter [OF Cons.prems])
  also have "\<dots> = filter (\<lambda>e. \<not> (fst e \<in> set (k # ks) \<and> virtualOfSecret key e)) cb"
    by (auto intro: filter_cong)
  finally show ?case .
qed

lemma drop_all_virtual:
  assumes "wf_object cb"
  shows "fold (dropVirtualStep key) (object_keys cb) cb = filter (\<lambda>e. \<not> virtualOfSecret key e) cb"
proof -
  have "filter (\<lambda>e. \<not> (fst e \<in> set (object_keys cb) \<and> virtualOfSecret key e)) cb
        = filter (\<lambda>e. \<not> virtualOfSecret key e) cb"
    by (rule filter_cong) (auto simp: set_object_keys)
  then show ?thesis by (simp add: fold_dropVirtualStep [OF assms])
qed

lemma fold_assign_wf:
  "wf_object (fold (\<lambda>t m. obj_assign (f t) (g t) m) ts m) = wf_object m"
  by (induction ts arbitrary: m) (simp_all add: wf_obj_assign)

lemma map_of_fold_assign:
  assumes "inj f"
  shows "map_of (fold (\<lambda>t m. obj_assign (f t) (g t) m) ts m) k =
     (if k \<in> f ` set ts then Some (g (inv f k)) else map_of m k)"
proof (induction ts arbitrary: m)
  case Nil
  then show ?case by simp
next
  case (Cons t ts)
  show ?case
    using assms by (auto simp: Cons.IH map_of_obj_assign)
qed


lemma inj_virtual_key: "inj (\<lambda>t. key @ ''/'' @ t)"
  by (simp add: inj_def)

lemma lodash_set_virtual_fun:
  "(\<lambda>t m. lodash_set m (key @ ''/'' @ t) (g t)) = (\<lambda>t m. obj_assign (key @ ''/'' @ t) (g t) m)"
  by (intro ext, rule lodash_set_slash) simp

lemma refreshVirtualBindings_eq:
  assumes "wf_object cb"
  shows "refreshVirtualBindings x cb =
     fold (\<lambda>t m. obj_assign (namespaceNameKey (metadata x) @ ''/'' @ t) (secretVirtualBinding x t) m)
       (providerTypesFromLabels (labels (metadata x)))
       (filter (\<lambda>e. \<not> virtualOfSecret (namespaceNameKey (metadata x)) e) cb)"
  unfolding refreshVirtualBindings_def Let_def drop_all_virtual [OF assms] lodash_set_virtual_fun
  by (rule refl)

lemma wf_refreshVirtualBindings:
  assumes "wf_object cb"
  shows "wf_object (refreshVirtualBindings x cb)"
  unfolding refreshVirtualBindings_eq [OF assms] fold_assign_wf
  by (rule wf_filter [OF assms])

lemma map_of_refreshVirtualBindings:
  assumes "wf_object cb"
  shows "map_of (refreshVirtualBindings x cb) k =
     (if k \<in> (\<lambda>t. namespaceNameKey (metadata x) @ ''/'' @ t) `
              set (providerTypesFromLabels (labels (metadata x)))
      then Some (secretVirtualBinding x (drop (length (namespaceNameKey (metadata x)) + 1) k))
      else (case map_of cb k of
              None \<Rightarrow> None
            | Some v \<Rightarrow> if virtualOfSecret (namespaceNameKey (metadata x)) (k, v) then None
                        else Some v))"
proof -
  let ?K = "namespaceNameKey (metadata x)"
  let ?f = "\<lambda>t. ?K @ ''/'' @ t"
  let ?T = "set (providerTypesFromLabels (labels (metadata x)))"
  let ?m = "filter (\<lambda>e. \<not> virtualOfSecret ?K e) cb"
  have i: "inv ?f (?f t) = t" for t
    by (rule inv_f_f) (rule inj_virtual_key)
  have d: "k \<in> ?f ` ?T \<Longrightarrow> inv ?f k = drop (length ?K + 1) k"
    using i by auto
  have "map_of (refreshVirtualBindings x cb) k =
      (if k \<in> ?f ` ?T then Some (secretVirtualBinding x (inv ?f k)) else map_of ?m k)"
    unfolding refreshVirtualBindings_eq [OF assms]
    by (rule map_of_fold_assign [OF inj_virtual_key])
  also have "\<dots> = (if k \<in> ?f ` ?T then Some (secretVirtualBinding x (drop (length ?K + 1) k))
      else map_of ?m k)"
    using d by presburger
  also have "map_of ?m k = (case map_of cb k of None \<Rightarrow> None
      | Some v \<Rightarrow> if virtualOfSecret ?K (k, v) then None else Some v)"
    unfolding map_of_filter_wf [OF assms] by (simp split: option.splits)
  finally show ?thesis .
qed


lemma obj_assign_idem: "obj_assign k v (obj_assign k v m) = obj_assign k v m"
  by (induction m) auto

lemma lodash_set_idem: "lodash_set (lodash_set m k v) k v = lodash_set m k v"
  by (simp add: lodash_set_def obj_assign_idem)

lemma map_of_wf_iff: "wf_object m \<Longrightarrow> (map_of m k = Some v) = ((k, v) \<in> set m)"
  by (simp add: wf_object_def)

lemma wf_set_eq: "wf_object m \<Longrightarrow> wf_object m' \<Longrightarrow> map_of m = map_of m' \<Longrightarrow> set m = set m'"
  by (simp add: wf_object_def map_of_inject_set)

lemma update_secret_only:
  "updateCloudProviderCredential None (Some x) s =
     s\<lparr>secrets := lodash_set (secrets s) (namespaceNameKey (metadata x)) x,
       credentialsBindings := refreshVirtualBindings x (credentialsBindings s)\<rparr>"
  by (simp add: updateCloudProviderCredential_def Let_def)

lemmas ex_defs = ex_resource_def ex_secret_def ex_binding_def ex_workloadIdentity_def ex_state_def
lemmas eval_defs = refreshVirtualBindings_def secretVirtualBinding_def workloadIdentityVirtualBinding_def
     object_keys_def object_values_def
     object_entries_def is_array_index_def is_digit_def dropVirtualStep_def obj_get_def obj_delete_def
     startsWith_def namespaceNameKey_def providerTypesFromLabels_def providerPrefix_def lodash_set_def
     Let_def ex_credentials_def
     wf_object_def updateCloudProviderCredential_def setCredentials_def reset_def forEach_opt_def
     setSecret_def setSecretBinding_def setCredentialsBinding_def setWorkloadIdentity_def setQuota_def
     fetchCredentials_def cloudProviderBindingList_def


lemma lodash_set_key: "lodash_set m (namespaceNameKey md) v = obj_assign (namespaceNameKey md) v m"
  by (rule lodash_set_slash) (rule slash_in_key)

lemma lodash_set_virtual': "lodash_set m (key @ CHR ''/'' # t) v = obj_assign (key @ CHR ''/'' # t) v m"
  by (rule lodash_set_slash) simp

lemma fold_set_virtual:
  "fold (\<lambda>t s2. s2\<lparr>credentialsBindings :=
           lodash_set (credentialsBindings s2) (key @ ''/'' @ t) (g t)\<rparr>) ts s =
   s\<lparr>credentialsBindings :=
       fold (\<lambda>t m. obj_assign (key @ ''/'' @ t) (g t) m) ts (credentialsBindings s)\<rparr>"
  by (induction ts arbitrary: s) (simp_all add: lodash_set_virtual')

lemma setSecretBinding_eq:
  "setSecretBinding item s =
     s\<lparr>secretBindings := obj_assign (namespaceNameKey (metadata item))
          (item\<lparr>kind := Some ''SecretBinding''\<rparr>) (secretBindings s)\<rparr>"
  by (simp add: setSecretBinding_def Let_def lodash_set_key)

lemma setCredentialsBinding_eq:
  "setCredentialsBinding item s =
     s\<lparr>credentialsBindings := obj_assign (namespaceNameKey (metadata item))
          (item\<lparr>kind := Some ''CredentialsBinding''\<rparr>) (credentialsBindings s)\<rparr>"
  by (simp add: setCredentialsBinding_def Let_def lodash_set_key)

lemma setQuota_eq:
  "setQuota item s = s\<lparr>quotas := obj_assign (namespaceNameKey (metadata item)) item (quotas s)\<rparr>"
  by (simp add: setQuota_def Let_def lodash_set_key)

lemma setSecret_eq:
  "setSecret item s =
     s\<lparr>secrets := obj_assign (namespaceNameKey (metadata item))
          (item\<lparr>kind := Some ''Secret''\<rparr>) (secrets s),
       credentialsBindings := assignVirtuals (namespaceNameKey (metadata item))
          (secretVirtualBinding (item\<lparr>kind := Some ''Secret''\<rparr>))
          (providerTypesFromLabels (labels (metadata item))) (credentialsBindings s)\<rparr>"
  unfolding setSecret_def Let_def fold_set_virtual assignVirtuals_def
  by (simp add: lodash_set_key)

lemma setWorkloadIdentity_eq:
  "setWorkloadIdentity item s =
     s\<lparr>workloadIdentities := obj_assign (namespaceNameKey (metadata item))
          (item\<lparr>kind := Some ''WorkloadIdentity''\<rparr>) (workloadIdentities s),
       credentialsBindings := assignVirtuals (namespaceNameKey (metadata item))
          (workloadIdentityVirtualBinding (item\<lparr>kind := Some ''WorkloadIdentity''\<rparr>))
          (providerTypesFromLabels (labels (metadata item))) (credentialsBindings s)\<rparr>"
  unfolding setWorkloadIdentity_def Let_def fold_set_virtual assignVirtuals_def
  by (simp add: lodash_set_key)

lemma map_of_assignVirtuals:
  "map_of (assignVirtuals key g ts m) k =
     (if k \<in> (\<lambda>t. key @ ''/'' @ t) ` set ts then Some (g (drop (length key + 1) k))
      else map_of m k)"
proof -
  let ?f = "\<lambda>t. key @ ''/'' @ t"
  have i: "inv ?f (?f t) = t" for t
    by (rule inv_f_f) (rule inj_virtual_key)
  have d: "k \<in> ?f ` set ts \<Longrightarrow> inv ?f k = drop (length key + 1) k"
    using i by auto
  have "map_of (assignVirtuals key g ts m) k =
      (if k \<in> ?f ` set ts then Some (g (inv ?f k)) else map_of m k)"
    unfolding assignVirtuals_def by (rule map_of_fold_assign [OF inj_virtual_key])
  then show ?thesis using d by presburger
qed

lemma wf_assignVirtuals: "wf_object (assignVirtuals key g ts m) = wf_object m"
  unfolding assignVirtuals_def by (rule fold_assign_wf)

lemma forEach_opt_fold: "forEach_opt xs f s = fold f (orEmpty xs) s"
  by (simp add: forEach_opt_def orEmpty_def split: option.splits)

lemma cb_fold_setSecretBinding:
  "credentialsBindings (fold setSecretBinding xs s) = credentialsBindings s"
  by (induction xs arbitrary: s) (simp_all add: setSecretBinding_eq)

lemma cb_fold_setQuota: "credentialsBindings (fold setQuota xs s) = credentialsBindings s"
  by (induction xs arbitrary: s) (simp_all add: setQuota_eq)

lemma cb_fold_setSecret:
  "credentialsBindings (fold setSecret xs s) = fold secretVirtuals xs (credentialsBindings s)"
  by (induction xs arbitrary: s) (simp_all add: setSecret_eq secretVirtuals_def)

lemma cb_fold_setCredentialsBinding:
  "credentialsBindings (fold setCredentialsBinding xs s) =
     fold explicitBinding xs (credentialsBindings s)"
  by (induction xs arbitrary: s) (simp_all add: setCredentialsBinding_eq explicitBinding_def)

lemma cb_fold_setWorkloadIdentity:
  "credentialsBindings (fold setWorkloadIdentity xs s) =
     fold workloadIdentityVirtuals xs (credentialsBindings s)"
  by (induction xs arbitrary: s) (simp_all add: setWorkloadIdentity_eq workloadIdentityVirtuals_def)

lemma cb_setCredentials:
  "credentialsBindings (setCredentials c s) =
     fold workloadIdentityVirtuals (orEmpty (c_workloadIdentities c))
       (fold explicitBinding (orEmpty (c_credentialsBindings c))
          (fold secretVirtuals (orEmpty (c_secrets c)) []))"
  by (simp add: setCredentials_def Let_def forEach_opt_fold cb_fold_setQuota
      cb_fold_setWorkloadIdentity cb_fold_setCredentialsBinding cb_fold_setSecret
      cb_fold_setSecretBinding reset_def)

lemma set_obj_assign: "set (obj_assign k v m) \<subseteq> insert (k, v) (set m)"
  by (induction m) auto

lemma set_assignVirtuals:
  "set (assignVirtuals key g ts m) \<subseteq> set m \<union> (\<lambda>t. (key @ ''/'' @ t, g t)) ` set ts"
proof (induction ts arbitrary: m)
  case Nil
  then show ?case by (simp add: assignVirtuals_def)
next
  case (Cons t ts)
  have "set (assignVirtuals key g (t # ts) m) =
      set (assignVirtuals key g ts (obj_assign (key @ ''/'' @ t) (g t) m))"
    by (simp add: assignVirtuals_def)
  also have "\<dots> \<subseteq> set (obj_assign (key @ ''/'' @ t) (g t) m)
      \<union> (\<lambda>t. (key @ ''/'' @ t, g t)) ` set ts"
    by (rule Cons.IH)
  also have "\<dots> \<subseteq> set m \<union> (\<lambda>t. (key @ ''/'' @ t, g t)) ` set (t # ts)"
    using set_obj_assign [of "key @ ''/'' @ t" "g t" m] by auto
  finally show ?case .
qed

lemma set_fold_secretVirtuals:
  "set (fold secretVirtuals xs m) \<subseteq> set m \<union> (\<Union>item\<in>set xs. secretWrites item)"
proof (induction xs arbitrary: m)
  case Nil
  then show ?case by simp
next
  case (Cons x xs)
  have "set (secretVirtuals x m) \<subseteq> set m \<union> secretWrites x"
    unfolding secretVirtuals_def secretWrites_def by (rule set_assignVirtuals)
  then show ?case using Cons.IH [of "secretVirtuals x m"] by auto
qed

lemma set_fold_workloadIdentityVirtuals:
  "set (fold workloadIdentityVirtuals xs m) \<subseteq>
     set m \<union> (\<Union>item\<in>set xs. workloadIdentityWrites item)"
proof (induction xs arbitrary: m)
  case Nil
  then show ?case by simp
next
  case (Cons x xs)
  have "set (workloadIdentityVirtuals x m) \<subseteq> set m \<union> workloadIdentityWrites x"
    unfolding workloadIdentityVirtuals_def workloadIdentityWrites_def by (rule set_assignVirtuals)
  then show ?case using Cons.IH [of "workloadIdentityVirtuals x m"] by auto
qed

lemma set_fold_explicitBinding:
  "set (fold explicitBinding xs m) \<subseteq> set m \<union> explicitWrite ` set xs"
proof (induction xs arbitrary: m)
  case Nil
  then show ?case by simp
next
  case (Cons x xs)
  have "set (explicitBinding x m) \<subseteq> set m \<union> {explicitWrite x}"
    unfolding explicitBinding_def explicitWrite_def using set_obj_assign by fastforce
  then show ?case using Cons.IH [of "explicitBinding x m"] by auto
qed

lemma set_cb_setCredentials:
  "set (credentialsBindings (setCredentials c s)) \<subseteq>
     (\<Union>item\<in>set (orEmpty (c_secrets c)). secretWrites item)
     \<union> explicitWrite ` set (orEmpty (c_credentialsBindings c))
     \<union> (\<Union>item\<in>set (orEmpty (c_workloadIdentities c)). workloadIdentityWrites item)"
  unfolding cb_setCredentials
  using set_fold_workloadIdentityVirtuals [of "orEmpty (c_workloadIdentities c)"
      "fold explicitBinding (orEmpty (c_credentialsBindings c))
          (fold secretVirtuals (orEmpty (c_secrets c)) [])"]
    set_fold_explicitBinding [of "orEmpty (c_credentialsBindings c)"
      "fold secretVirtuals (orEmpty (c_secrets c)) []"]
    set_fold_secretVirtuals [of "orEmpty (c_secrets c)" "[]"]
  by auto

lemma secretVirtualBinding_identity:
  "carriesOwnerIdentity item t (namespaceNameKey (metadata item) @ ''/'' @ t)
     (secretVirtualBinding (item\<lparr>kind := k\<rparr>) t)"
  by (simp add: carriesOwnerIdentity_def secretVirtualBinding_def namespaceNameKey_def)

lemma workloadIdentityVirtualBinding_identity:
  "carriesOwnerIdentity item t (namespaceNameKey (metadata item) @ ''/'' @ t)
     (workloadIdentityVirtualBinding (item\<lparr>kind := k\<rparr>) t)"
  by (simp add: carriesOwnerIdentity_def workloadIdentityVirtualBinding_def namespaceNameKey_def)

lemma set_dropVirtualStep: "set (dropVirtualStep key k cb) \<subseteq> set cb"
  by (auto simp: dropVirtualStep_def obj_delete_def split: option.splits)

lemma set_fold_dropVirtualStep: "set (fold (dropVirtualStep key) ks cb) \<subseteq> set cb"
proof (induction ks arbitrary: cb)
  case Nil
  then show ?case by simp
next
  case (Cons k ks)
  then show ?case using set_dropVirtualStep [of key k cb] by fastforce
qed

lemma set_refreshVirtualBindings:
  "set (refreshVirtualBindings x cb) \<subseteq>
     set cb \<union> (\<lambda>t. (namespaceNameKey (metadata x) @ ''/'' @ t, secretVirtualBinding x t)) `
        set (providerTypesFromLabels (labels (metadata x)))"
proof -
  let ?K = "namespaceNameKey (metadata x)"
  have "refreshVirtualBindings x cb =
      assignVirtuals ?K (secretVirtualBinding x) (providerTypesFromLabels (labels (metadata x)))
        (fold (dropVirtualStep ?K) (object_keys cb) cb)"
    unfolding refreshVirtualBindings_def Let_def lodash_set_virtual_fun assignVirtuals_def
    by (rule refl)
  then show ?thesis
    using set_assignVirtuals [of ?K "secretVirtualBinding x"
        "providerTypesFromLabels (labels (metadata x))" "fold (dropVirtualStep ?K) (object_keys cb) cb"]
      set_fold_dropVirtualStep [of ?K "object_keys cb" cb]
    by auto
qed

lemma obj_assign_same: "map_of m k = Some v \<Longrightarrow> obj_assign k v m = m"
  by (induction m) (auto split: if_splits)

lemma obj_assign_overwrite: "obj_assign k v2 (obj_assign k v1 m) = obj_assign k v2 m"
  by (induction m) auto

lemma filter_key_obj_assign:
  "wf_object m \<Longrightarrow> filter (\<lambda>e. fst e = k) (obj_assign k v m) = [(k, v)]"
proof (induction m)
  case Nil
  then show ?case by simp
next
  case (Cons p m)
  have w: "wf_object m"
    using Cons.prems by (simp add: wf_object_def)
  have d: "fst e \<noteq> fst p" if "e \<in> set m" for e
    using Cons.prems that
    by (metis wf_object_def distinct.simps(2) list.simps(9) image_eqI set_map)
  show ?case
  proof (cases "fst p = k")
    case True
    then have "filter (\<lambda>e. fst e = k) m = []"
      using d by (simp add: filter_empty_conv)
    then show ?thesis using True by simp
  next
    case False
    then show ?thesis using Cons.IH [OF w] by simp
  qed
qed

lemma fold_assign_fixed:
  "list_all (\<lambda>t. map_of m (f t) = Some (g t)) ts \<Longrightarrow>
   fold (\<lambda>t m. obj_assign (f t) (g t) m) ts m = m"
  by (induction ts) (simp_all add: obj_assign_same)

lemma assignVirtuals_idem:
  "assignVirtuals key g ts (assignVirtuals key g ts m) = assignVirtuals key g ts m"
proof -
  let ?m = "assignVirtuals key g ts m"
  have "map_of ?m (key @ ''/'' @ t) = Some (g t)" if "t \<in> set ts" for t
    unfolding map_of_assignVirtuals using that by simp
  then have "list_all (\<lambda>t. map_of ?m (key @ ''/'' @ t) = Some (g t)) ts"
    by (simp add: list_all_iff)
  then have "fold (\<lambda>t m. obj_assign (key @ ''/'' @ t) (g t) m) ts ?m = ?m"
    by (rule fold_assign_fixed)
  then show ?thesis by (simp add: assignVirtuals_def)
qed


lemmas spec_defs = spec_replaceAll_def spec_synthesize_def spec_virtualBinding_def spec_upsert_def
  orEmpty_def

lemma fold_setSecretBinding:
  "fold setSecretBinding xs s =
     s\<lparr>secretBindings := fold (storeTagged ''SecretBinding'') xs (secretBindings s)\<rparr>"
  by (induction xs arbitrary: s) (simp_all add: setSecretBinding_eq storeTagged_def)

lemma fold_setSecret:
  "fold setSecret xs s =
     s\<lparr>secrets := fold (storeTagged ''Secret'') xs (secrets s),
       credentialsBindings := fold secretVirtuals xs (credentialsBindings s)\<rparr>"
  by (induction xs arbitrary: s) (simp_all add: setSecret_eq storeTagged_def secretVirtuals_def)

lemma fold_setCredentialsBinding:
  "fold setCredentialsBinding xs s =
     s\<lparr>credentialsBindings := fold explicitBinding xs (credentialsBindings s)\<rparr>"
  by (induction xs arbitrary: s) (simp_all add: setCredentialsBinding_eq explicitBinding_def)

lemma fold_setWorkloadIdentity:
  "fold setWorkloadIdentity xs s =
     s\<lparr>workloadIdentities := fold (storeTagged ''WorkloadIdentity'') xs (workloadIdentities s),
       credentialsBindings := fold workloadIdentityVirtuals xs (credentialsBindings s)\<rparr>"
  by (induction xs arbitrary: s)
    (simp_all add: setWorkloadIdentity_eq storeTagged_def workloadIdentityVirtuals_def)

lemma fold_setQuota:
  "fold setQuota xs s = s\<lparr>quotas := fold storePlain xs (quotas s)\<rparr>"
  by (induction xs arbitrary: s) (simp_all add: setQuota_eq storePlain_def)

lemma setCredentials_normal:
  "setCredentials c s =
     \<lparr>secretBindings = fold (storeTagged ''SecretBinding'') (orEmpty (c_secretBindings c)) [],
      secrets = fold (storeTagged ''Secret'') (orEmpty (c_secrets c)) [],
      credentialsBindings =
        fold workloadIdentityVirtuals (orEmpty (c_workloadIdentities c))
          (fold explicitBinding (orEmpty (c_credentialsBindings c))
             (fold secretVirtuals (orEmpty (c_secrets c)) [])),
      workloadIdentities = fold (storeTagged ''WorkloadIdentity'') (orEmpty (c_workloadIdentities c)) [],
      quotas = fold storePlain (orEmpty (c_quotas c)) []\<rparr>"
  by (simp add: setCredentials_def Let_def forEach_opt_fold fold_setSecretBinding fold_setSecret
      fold_setCredentialsBinding fold_setWorkloadIdentity fold_setQuota reset_def)

lemma setCredentials_forgets: "setCredentials c s = setCredentials c s'"
  by (simp add: setCredentials_normal)

lemma orEmpty_Some: "orEmpty (Some xs) = xs"
  by (simp add: orEmpty_def)

lemma setCredentials_withEmpty: "setCredentials (withEmpty c) s = setCredentials c s"
  by (simp add: setCredentials_normal withEmpty_def orEmpty_Some)

lemma fold_spec_upsert:
  "fold (spec_upsert ''SecretBinding'') xs s =
     s\<lparr>secretBindings := fold (specStore ''SecretBinding'') xs (secretBindings s)\<rparr>"
  "fold (spec_upsert ''Secret'') xs s =
     s\<lparr>secrets := fold (specStore ''Secret'') xs (secrets s)\<rparr>"
  "fold (spec_upsert ''CredentialsBinding'') xs s =
     s\<lparr>credentialsBindings := fold (specStore ''CredentialsBinding'') xs (credentialsBindings s)\<rparr>"
  "fold (spec_upsert ''WorkloadIdentity'') xs s =
     s\<lparr>workloadIdentities := fold (specStore ''WorkloadIdentity'') xs (workloadIdentities s)\<rparr>"
  "fold (spec_upsert ''Quota'') xs s =
     s\<lparr>quotas := fold (specStore ''Quota'') xs (quotas s)\<rparr>"
  by (induction xs arbitrary: s; simp add: spec_upsert_def specStore_def Let_def)+

lemma fold_spec_synthesize:
  "fold spec_synthesize xs s = s\<lparr>credentialsBindings := fold specSynth xs (credentialsBindings s)\<rparr>"
  by (induction xs arbitrary: s)
    (simp_all add: spec_synthesize_def specSynth_def assignVirtuals_def Let_def)

lemma spec_replaceAll_normal:
  "spec_replaceAll c s =
     \<lparr>secretBindings = fold (specStore ''SecretBinding'') (orEmpty (c_secretBindings c)) [],
      secrets = fold (specStore ''Secret'') (orEmpty (c_secrets c)) [],
      credentialsBindings =
        fold specSynth (map snd (fold (specStore ''WorkloadIdentity'') (orEmpty (c_workloadIdentities c)) []))
          (fold specSynth (map snd (fold (specStore ''Secret'') (orEmpty (c_secrets c)) []))
             (fold (specStore ''CredentialsBinding'') (orEmpty (c_credentialsBindings c)) [])),
      workloadIdentities = fold (specStore ''WorkloadIdentity'') (orEmpty (c_workloadIdentities c)) [],
      quotas = fold (specStore ''Quota'') (orEmpty (c_quotas c)) []\<rparr>"
  by (simp add: spec_replaceAll_def Let_def fold_spec_upsert fold_spec_synthesize reset_def)

lemma kind_update_same: "kind x = k \<Longrightarrow> x\<lparr>kind := k\<rparr> = x"
  by (cases x) simp

lemma fold_specStore_tagged:
  "list_all (kindIfSet knd) xs \<Longrightarrow> fold (specStore knd) xs m = fold (storeTagged knd) xs m"
proof (induction xs arbitrary: m)
  case Nil
  then show ?case by simp
next
  case (Cons x xs)
  then have "specStore knd x m = storeTagged knd x m"
    by (auto simp: specStore_def storeTagged_def kindIfSet_def kind_update_same)
  then show ?case using Cons by simp
qed

lemma fold_specStore_plain:
  "list_all (\<lambda>q. kind q \<noteq> None) xs \<Longrightarrow> fold (specStore knd) xs m = fold storePlain xs m"
  by (induction xs arbitrary: m) (auto simp: specStore_def storePlain_def)

lemma obj_assign_fresh: "k \<notin> fst ` set m \<Longrightarrow> obj_assign k v m = m @ [(k, v)]"
  by (induction m) auto

lemma fold_storeTagged_distinct:
  "distinct (map (\<lambda>i. namespaceNameKey (metadata i)) xs) \<Longrightarrow>
   (\<lambda>i. namespaceNameKey (metadata i)) ` set xs \<inter> fst ` set m = {} \<Longrightarrow>
   fold (storeTagged knd) xs m =
     m @ map (\<lambda>i. (namespaceNameKey (metadata i), i\<lparr>kind := Some knd\<rparr>)) xs"
proof (induction xs arbitrary: m)
  case Nil
  then show ?case by simp
next
  case (Cons x xs)
  let ?k = "\<lambda>i. namespaceNameKey (metadata i)"
  have f: "?k x \<notin> fst ` set m" using Cons.prems(2) by auto
  have s: "storeTagged knd x m = m @ [(?k x, x\<lparr>kind := Some knd\<rparr>)]"
    unfolding storeTagged_def by (rule obj_assign_fresh [OF f])
  have d: "distinct (map ?k xs)" using Cons.prems(1) by simp
  have n: "?k ` set xs \<inter> fst ` set (m @ [(?k x, x\<lparr>kind := Some knd\<rparr>)]) = {}"
    using Cons.prems by auto
  show ?case
    using Cons.IH [OF d n] by (simp add: s)
qed

lemma owners_of_storeTagged:
  "distinct (map (\<lambda>i. namespaceNameKey (metadata i)) xs) \<Longrightarrow>
   map snd (fold (storeTagged knd) xs []) = map (\<lambda>i. i\<lparr>kind := Some knd\<rparr>) xs"
  by (simp add: fold_storeTagged_distinct comp_def)

lemma split_first_slash:
  "CHR ''/'' \<notin> set a \<Longrightarrow> CHR ''/'' \<notin> set b \<Longrightarrow> a @ CHR ''/'' # r = b @ CHR ''/'' # r' \<Longrightarrow>
   a = b \<and> r = r'"
proof (induction a arbitrary: b)
  case Nil
  then show ?case by (cases b) auto
next
  case (Cons x a)
  then show ?case by (cases b) auto
qed

lemma virtual_key_clash:
  assumes "plainIdentity i" "plainIdentity x"
    and "namespaceNameKey (metadata x) @ ''/'' @ t = namespaceNameKey (metadata i)
         \<or> startsWith (namespaceNameKey (metadata x) @ ''/'' @ t) (namespaceNameKey (metadata i) @ ''/'')"
  shows "namespaceNameKey (metadata i) = namespaceNameKey (metadata x)"
proof -
  let ?nx = "namespace (metadata x)" and ?mx = "name (metadata x)"
  let ?ni = "namespace (metadata i)" and ?mi = "name (metadata i)"
  have p: "CHR ''/'' \<notin> set ?nx" "CHR ''/'' \<notin> set ?mx" "CHR ''/'' \<notin> set ?ni" "CHR ''/'' \<notin> set ?mi"
    using assms(1,2) by (simp_all add: plainIdentity_def)
  from assms(3) show ?thesis
  proof
    assume "namespaceNameKey (metadata x) @ ''/'' @ t = namespaceNameKey (metadata i)"
    then have "?nx @ CHR ''/'' # (?mx @ CHR ''/'' # t) = ?ni @ CHR ''/'' # ?mi"
      by (simp add: namespaceNameKey_def)
    then have "?mx @ CHR ''/'' # t = ?mi"
      using split_first_slash [OF p(1) p(3)] by blast
    then have "CHR ''/'' \<in> set ?mi" by (metis in_set_conv_decomp)
    then show ?thesis using p(4) by simp
  next
    assume "startsWith (namespaceNameKey (metadata x) @ ''/'' @ t) (namespaceNameKey (metadata i) @ ''/'')"
    then obtain r where "namespaceNameKey (metadata x) @ ''/'' @ t =
        (namespaceNameKey (metadata i) @ ''/'') @ r"
      unfolding startsWith_iff by blast
    then have e: "?nx @ CHR ''/'' # (?mx @ CHR ''/'' # t) = ?ni @ CHR ''/'' # (?mi @ CHR ''/'' # r)"
      by (simp add: namespaceNameKey_def)
    then have n: "?nx = ?ni" and "?mx @ CHR ''/'' # t = ?mi @ CHR ''/'' # r"
      using split_first_slash [OF p(1) p(3) e] by blast+
    then have "?mx = ?mi"
      using split_first_slash [OF p(2) p(4)] by blast
    then show ?thesis using n by (simp add: namespaceNameKey_def)
  qed
qed

lemma explicit_key_not_virtual:
  assumes "plainIdentity b" "plainIdentity x"
  shows "namespaceNameKey (metadata b) \<noteq> namespaceNameKey (metadata x) @ ''/'' @ t"
proof
  assume "namespaceNameKey (metadata b) = namespaceNameKey (metadata x) @ ''/'' @ t"
  then have "namespaceNameKey (metadata x) @ ''/'' @ t = namespaceNameKey (metadata b)
      \<or> startsWith (namespaceNameKey (metadata x) @ ''/'' @ t) (namespaceNameKey (metadata b) @ ''/'')"
    by simp
  from virtual_key_clash [OF assms this]
  have "namespaceNameKey (metadata b) = namespaceNameKey (metadata x)" .
  then show False
    using \<open>namespaceNameKey (metadata b) = namespaceNameKey (metadata x) @ ''/'' @ t\<close> by simp
qed

lemma fold_purge_noop:
  assumes "list_all plainIdentity xs"
    and "distinct (map (\<lambda>i. namespaceNameKey (metadata i)) xs)"
    and "\<And>i e. i \<in> set xs \<Longrightarrow> e \<in> set m \<Longrightarrow> \<not> synthesisRemoves knd i e"
  shows "fold (\<lambda>i m. assignVirtuals (namespaceNameKey (metadata i)) (g i) (T i)
                  (filter (\<lambda>e. \<not> synthesisRemoves knd i e) m)) xs m =
         fold (\<lambda>i m. assignVirtuals (namespaceNameKey (metadata i)) (g i) (T i) m) xs m"
  using assms
proof (induction xs arbitrary: m)
  case Nil
  then show ?case by simp
next
  case (Cons x xs)
  let ?k = "\<lambda>i. namespaceNameKey (metadata i)"
  let ?m = "assignVirtuals (?k x) (g x) (T x) m"
  have f: "filter (\<lambda>e. \<not> synthesisRemoves knd x e) m = m"
    using Cons.prems(3) by (simp add: filter_id_conv)
  have p: "list_all plainIdentity xs" and px: "plainIdentity x"
    using Cons.prems(1) by simp_all
  have d: "distinct (map ?k xs)" and nx: "?k x \<notin> ?k ` set xs"
    using Cons.prems(2) by simp_all
  have c: "\<not> synthesisRemoves knd i e" if i: "i \<in> set xs" and e: "e \<in> set ?m" for i e
  proof -
    from e set_assignVirtuals [of "?k x" "g x" "T x" m]
    consider "e \<in> set m" | t where "e = (?k x @ ''/'' @ t, g x t)" by auto
    then show ?thesis
    proof cases
      case 1
      then show ?thesis using Cons.prems(3) i by simp
    next
      case 2
      have pi: "plainIdentity i" using p i by (simp add: list_all_iff)
      have "?k i \<noteq> ?k x" using nx i by (metis imageI)
      then have "\<not> (?k x @ ''/'' @ t = ?k i \<or> startsWith (?k x @ ''/'' @ t) (?k i @ ''/''))"
        using virtual_key_clash [OF pi px, of t] by blast
      then show ?thesis using 2 by (simp add: synthesisRemoves_def)
    qed
  qed
  show ?case
    using Cons.IH [OF p d c] by (simp add: f)
qed

lemma map_of_assignVirtuals_add:
  "map_of (assignVirtuals key g ts m) = map_of m ++ map_of (assignVirtuals key g ts [])"
  by (rule ext) (simp add: map_of_assignVirtuals map_add_def)

lemma map_of_fold_add:
  assumes "\<And>x m. map_of (V x m) = map_of m ++ map_of (V x [])"
  shows "map_of (fold V xs m) = map_of m ++ map_of (fold V xs [])"
proof (induction xs arbitrary: m)
  case Nil
  then show ?case by simp
next
  case (Cons x xs)
  have "map_of (fold V (x # xs) m) = map_of (V x m) ++ map_of (fold V xs [])"
    using Cons.IH [of "V x m"] by simp
  also have "\<dots> = map_of m ++ (map_of (V x []) ++ map_of (fold V xs []))"
    by (simp add: assms [of x m])
  also have "map_of (V x []) ++ map_of (fold V xs []) = map_of (fold V (x # xs) [])"
    using Cons.IH [of "V x []"] by simp
  finally show ?case .
qed

lemma map_of_fold_secretVirtuals:
  "map_of (fold secretVirtuals xs m) = map_of m ++ map_of (fold secretVirtuals xs [])"
  unfolding secretVirtuals_def by (rule map_of_fold_add) (rule map_of_assignVirtuals_add)

lemma map_of_fold_workloadIdentityVirtuals:
  "map_of (fold workloadIdentityVirtuals xs m) =
     map_of m ++ map_of (fold workloadIdentityVirtuals xs [])"
  unfolding workloadIdentityVirtuals_def by (rule map_of_fold_add) (rule map_of_assignVirtuals_add)

lemma map_of_fold_explicitBinding:
  "map_of (fold explicitBinding xs m) = map_of m ++ map_of (fold explicitBinding xs [])"
  by (rule map_of_fold_add) (simp add: explicitBinding_def map_of_obj_assign map_add_def fun_eq_iff)

lemma wf_fold_secretVirtuals: "wf_object (fold secretVirtuals xs m) = wf_object m"
  by (induction xs arbitrary: m) (simp_all add: secretVirtuals_def wf_assignVirtuals)

lemma wf_fold_workloadIdentityVirtuals: "wf_object (fold workloadIdentityVirtuals xs m) = wf_object m"
  by (induction xs arbitrary: m) (simp_all add: workloadIdentityVirtuals_def wf_assignVirtuals)

lemma wf_fold_explicitBinding: "wf_object (fold explicitBinding xs m) = wf_object m"
  by (induction xs arbitrary: m) (simp_all add: explicitBinding_def wf_obj_assign)

lemma specSynth_secret:
  "specSynth (i\<lparr>kind := Some ''Secret''\<rparr>) =
     (\<lambda>m. assignVirtuals (namespaceNameKey (metadata i))
       (secretVirtualBinding (i\<lparr>kind := Some ''Secret''\<rparr>))
       (providerTypesFromLabels (labels (metadata i)))
       (filter (\<lambda>e. \<not> synthesisRemoves ''Secret'' i e) m))"
proof -
  have "spec_virtualBinding (i\<lparr>kind := Some ''Secret''\<rparr>) =
      secretVirtualBinding (i\<lparr>kind := Some ''Secret''\<rparr>)"
    by (rule ext) (simp add: spec_virtualBinding_def secretVirtualBinding_def)
  then show ?thesis by (intro ext) (simp add: specSynth_def synthesisRemoves_def)
qed

lemma specSynth_workloadIdentity:
  "specSynth (i\<lparr>kind := Some ''WorkloadIdentity''\<rparr>) =
     (\<lambda>m. assignVirtuals (namespaceNameKey (metadata i))
       (workloadIdentityVirtualBinding (i\<lparr>kind := Some ''WorkloadIdentity''\<rparr>))
       (providerTypesFromLabels (labels (metadata i)))
       (filter (\<lambda>e. \<not> synthesisRemoves ''WorkloadIdentity'' i e) m))"
proof -
  have "spec_virtualBinding (i\<lparr>kind := Some ''WorkloadIdentity''\<rparr>) =
      workloadIdentityVirtualBinding (i\<lparr>kind := Some ''WorkloadIdentity''\<rparr>)"
    by (rule ext) (simp add: spec_virtualBinding_def workloadIdentityVirtualBinding_def)
  then show ?thesis by (intro ext) (simp add: specSynth_def synthesisRemoves_def)
qed

lemma fold_specSynth_secrets:
  assumes "list_all plainIdentity xs"
    and "distinct (map (\<lambda>i. namespaceNameKey (metadata i)) xs)"
    and "\<And>e. e \<in> set m \<Longrightarrow> kind (snd e) \<noteq> Some ''Secret''"
  shows "fold specSynth (map (\<lambda>i. i\<lparr>kind := Some ''Secret''\<rparr>) xs) m = fold secretVirtuals xs m"
proof -
  have n: "\<not> synthesisRemoves ''Secret'' i e" if "e \<in> set m" for i e
    using assms(3) that by (simp add: synthesisRemoves_def)
  have "fold specSynth (map (\<lambda>i. i\<lparr>kind := Some ''Secret''\<rparr>) xs) m =
      fold (\<lambda>i m. assignVirtuals (namespaceNameKey (metadata i))
              (secretVirtualBinding (i\<lparr>kind := Some ''Secret''\<rparr>))
              (providerTypesFromLabels (labels (metadata i)))
              (filter (\<lambda>e. \<not> synthesisRemoves ''Secret'' i e) m)) xs m"
    by (simp add: fold_map comp_def specSynth_secret)
  also have "\<dots> = fold (\<lambda>i m. assignVirtuals (namespaceNameKey (metadata i))
              (secretVirtualBinding (i\<lparr>kind := Some ''Secret''\<rparr>))
              (providerTypesFromLabels (labels (metadata i))) m) xs m"
    by (rule fold_purge_noop [OF assms(1,2)]) (rule n)
  also have "\<dots> = fold secretVirtuals xs m"
    unfolding secretVirtuals_def by (rule refl)
  finally show ?thesis .
qed

lemma fold_specSynth_workloadIdentities:
  assumes "list_all plainIdentity xs"
    and "distinct (map (\<lambda>i. namespaceNameKey (metadata i)) xs)"
    and "\<And>e. e \<in> set m \<Longrightarrow> kind (snd e) \<noteq> Some ''WorkloadIdentity''"
  shows "fold specSynth (map (\<lambda>i. i\<lparr>kind := Some ''WorkloadIdentity''\<rparr>) xs) m =
         fold workloadIdentityVirtuals xs m"
proof -
  have n: "\<not> synthesisRemoves ''WorkloadIdentity'' i e" if "e \<in> set m" for i e
    using assms(3) that by (simp add: synthesisRemoves_def)
  have "fold specSynth (map (\<lambda>i. i\<lparr>kind := Some ''WorkloadIdentity''\<rparr>) xs) m =
      fold (\<lambda>i m. assignVirtuals (namespaceNameKey (metadata i))
              (workloadIdentityVirtualBinding (i\<lparr>kind := Some ''WorkloadIdentity''\<rparr>))
              (providerTypesFromLabels (labels (metadata i)))
              (filter (\<lambda>e. \<not> synthesisRemoves ''WorkloadIdentity'' i e) m)) xs m"
    by (simp add: fold_map comp_def specSynth_workloadIdentity)
  also have "\<dots> = fold (\<lambda>i m. assignVirtuals (namespaceNameKey (metadata i))
              (workloadIdentityVirtualBinding (i\<lparr>kind := Some ''WorkloadIdentity''\<rparr>))
              (providerTypesFromLabels (labels (metadata i))) m) xs m"
    by (rule fold_purge_noop [OF assms(1,2)]) (rule n)
  also have "\<dots> = fold workloadIdentityVirtuals xs m"
    unfolding workloadIdentityVirtuals_def by (rule refl)
  finally show ?thesis .
qed

lemma kind_explicit_entries:
  "e \<in> set (fold explicitBinding xs []) \<Longrightarrow> kind (snd e) = Some ''CredentialsBinding''"
  using set_fold_explicitBinding [of xs "[]"] by (auto simp: explicitWrite_def)

lemma kind_secret_entries:
  "e \<in> set (fold secretVirtuals xs m) \<Longrightarrow> e \<in> set m \<or> kind (snd e) = Some ''Secret''"
  using set_fold_secretVirtuals [of xs m]
  by (auto simp: secretWrites_def secretVirtualBinding_def)

lemma explicit_secret_disjoint:
  assumes "list_all plainIdentity bs" "list_all plainIdentity xs"
  shows "dom (map_of (fold explicitBinding bs [])) \<inter> dom (map_of (fold secretVirtuals xs [])) = {}"
proof -
  have "False" if b: "k \<in> fst ` set (fold explicitBinding bs [])"
    and x: "k \<in> fst ` set (fold secretVirtuals xs [])" for k
  proof -
    from b set_fold_explicitBinding [of bs "[]"]
    obtain i where i: "i \<in> set bs" "k = namespaceNameKey (metadata i)"
      by (auto simp: explicitWrite_def)
    from x set_fold_secretVirtuals [of xs "[]"]
    obtain j t where j: "j \<in> set xs" "k = namespaceNameKey (metadata j) @ ''/'' @ t"
      by (auto simp: secretWrites_def)
    have "plainIdentity i" "plainIdentity j"
      using assms i(1) j(1) by (simp_all add: list_all_iff)
    from explicit_key_not_virtual [OF this, of t] show False
      using i(2) j(2) by simp
  qed
  then show ?thesis by (auto simp: dom_map_of_conv_image_fst)
qed


subsection \<open>Every mapping keeps each key once\<close>


lemma wf_lodash_set: "wf_object (lodash_set m k v) = wf_object m"
  by (simp add: lodash_set_def wf_obj_assign)

lemma wf_fold_storeTagged: "wf_object (fold (storeTagged knd) xs m) = wf_object m"
  by (induction xs arbitrary: m) (simp_all add: storeTagged_def wf_obj_assign)

lemma wf_fold_storePlain: "wf_object (fold storePlain xs m) = wf_object m"
  by (induction xs arbitrary: m) (simp_all add: storePlain_def wf_obj_assign)

lemma wf_state_reset: "wf_state (reset s)"
  by (simp add: wf_state_def reset_def wf_object_def)

lemma wf_state_setCredentials: "wf_state (setCredentials c s)"
  by (simp add: wf_state_def setCredentials_normal wf_fold_storeTagged wf_fold_storePlain
      wf_fold_workloadIdentityVirtuals wf_fold_explicitBinding wf_fold_secretVirtuals)
    (simp add: wf_object_def)

lemma update_binding_then_secret:
  "updateCloudProviderCredential binding (Some x) s =
     updateCloudProviderCredential None (Some x) (updateCloudProviderCredential binding None s)"
  by (simp add: updateCloudProviderCredential_def Let_def split: option.splits)

lemma wf_state_updateCloudProviderCredential:
  assumes "wf_state s"
  shows "wf_state (updateCloudProviderCredential binding secret s)"
proof -
  let ?s1 = "updateCloudProviderCredential binding None s"
  have 1: "wf_state ?s1"
    using assms
    by (auto simp: updateCloudProviderCredential_def wf_state_def wf_lodash_set Let_def
        split: option.splits)
  show ?thesis
  proof (cases secret)
    case None
    then show ?thesis using 1 by simp
  next
    case (Some x)
    have "wf_object (refreshVirtualBindings x (credentialsBindings ?s1))"
      using 1 by (simp add: wf_state_def wf_refreshVirtualBindings)
    then have "wf_state (updateCloudProviderCredential None (Some x) ?s1)"
      unfolding update_secret_only using 1 by (simp add: wf_state_def wf_lodash_set)
    then show ?thesis
      unfolding Some update_binding_then_secret [of binding x s] .
  qed
qed

lemma wf_state_fetchCredentials: "wf_state (snd (fetchCredentials response s))"
  by (cases response) (simp_all add: fetchCredentials_def wf_state_reset wf_state_setCredentials)

lemma refresh_leaves_no_stale:
  assumes "wf_object cb"
  shows "(obj_get (refreshVirtualBindings x' cb) k = Some v
            \<and> kind v = Some ''Secret''
            \<and> (k = namespaceNameKey (metadata x')
                \<or> startsWith k (namespaceNameKey (metadata x') @ ''/'')) \<longrightarrow>
            (\<exists>t. t \<in> set (providerTypesFromLabels (labels (metadata x')))
                 \<and> k = namespaceNameKey (metadata x') @ ''/'' @ t
                 \<and> v = secretVirtualBinding x' t))"
proof -
  let ?K = "namespaceNameKey (metadata x')"
  let ?f = "\<lambda>t. ?K @ ''/'' @ t"
  let ?T = "set (providerTypesFromLabels (labels (metadata x')))"
  have "\<exists>t. t \<in> ?T \<and> k = ?f t \<and> v = secretVirtualBinding x' t"
    if h: "map_of (refreshVirtualBindings x' cb) k = Some v" "kind v = Some ''Secret''"
      "k = ?K \<or> startsWith k (?K @ ''/'')"
  proof (cases "k \<in> ?f ` ?T")
    case True
    then obtain t where t: "t \<in> ?T" "k = ?f t" by blast
    then have "drop (length ?K + 1) k = t" by simp
    then have "v = secretVirtualBinding x' t"
      using h(1) True unfolding map_of_refreshVirtualBindings [OF assms] by simp
    then show ?thesis using t by blast
  next
    case False
    then have "(case map_of cb k of None \<Rightarrow> None
        | Some w \<Rightarrow> if virtualOfSecret ?K (k, w) then None else Some w) = Some v"
      using h(1) unfolding map_of_refreshVirtualBindings [OF assms] by simp
    then have "\<not> virtualOfSecret ?K (k, v)"
      by (auto split: option.splits if_splits)
    then show ?thesis using h(2,3) by (simp add: virtualOfSecret_def)
  qed
  then show ?thesis by (simp add: obj_get_def)
qed

lemma refresh_stores_virtuals:
  "t \<in> set (providerTypesFromLabels (labels (metadata x))) \<Longrightarrow>
   obj_get (refreshVirtualBindings x cb) (namespaceNameKey (metadata x) @ ''/'' @ t)
     = Some (secretVirtualBinding x t)"
proof -
  let ?K = "namespaceNameKey (metadata x)"
  assume t: "t \<in> set (providerTypesFromLabels (labels (metadata x)))"
  have "refreshVirtualBindings x cb =
      assignVirtuals ?K (secretVirtualBinding x) (providerTypesFromLabels (labels (metadata x)))
        (fold (dropVirtualStep ?K) (object_keys cb) cb)"
    unfolding refreshVirtualBindings_def Let_def lodash_set_virtual_fun assignVirtuals_def
    by (rule refl)
  then show ?thesis
    using t by (simp add: obj_get_def map_of_assignVirtuals)
qed


lemma wf_fold_specStore: "wf_object (fold (specStore knd) xs m) = wf_object m"
  by (induction xs arbitrary: m) (simp_all add: specStore_def wf_obj_assign)

lemma wf_fold_specSynth: "wf_object m \<Longrightarrow> wf_object (fold specSynth xs m)"
  by (induction xs arbitrary: m) (simp_all add: specSynth_def wf_assignVirtuals wf_filter)

lemma wf_cb_spec_replaceAll: "wf_object (credentialsBindings (spec_replaceAll c s))"
proof -
  have "wf_object (fold (specStore ''CredentialsBinding'') (orEmpty (c_credentialsBindings c)) [])"
    unfolding wf_fold_specStore by (simp add: wf_object_def)
  then show ?thesis
    by (simp add: spec_replaceAll_normal wf_fold_specSynth)
qed

lemma wf_cb_setCredentials: "wf_object (credentialsBindings (setCredentials c s))"
  using wf_state_setCredentials [of c s] by (simp add: wf_state_def)

lemma cb_refines_replaceAll:
  assumes "regularBindings c"
  shows "map_of (credentialsBindings (setCredentials c s)) =
           map_of (credentialsBindings (spec_replaceAll c s))"
proof -
  let ?secs = "orEmpty (c_secrets c)"
  let ?cbs = "orEmpty (c_credentialsBindings c)" and ?wis = "orEmpty (c_workloadIdentities c)"
  let ?k = "\<lambda>i. namespaceNameKey (metadata i)"
  from assms have
    k: "list_all (kindIfSet ''Secret'') ?secs"
      "list_all (kindIfSet ''CredentialsBinding'') ?cbs"
      "list_all (kindIfSet ''WorkloadIdentity'') ?wis"
    and p: "list_all plainIdentity ?secs" "list_all plainIdentity ?cbs"
      "list_all plainIdentity ?wis"
    and d: "distinct (map ?k ?secs)" "distinct (map ?k ?wis)"
    by (simp_all add: regularBindings_def)
  let ?E = "fold explicitBinding ?cbs []"
  let ?code = "fold workloadIdentityVirtuals ?wis (fold explicitBinding ?cbs (fold secretVirtuals ?secs []))"
  let ?spec = "fold workloadIdentityVirtuals ?wis (fold secretVirtuals ?secs ?E)"
  have x: "storeTagged ''CredentialsBinding'' = explicitBinding"
    by (intro ext) (simp add: storeTagged_def explicitBinding_def)
  have e1: "\<And>e. e \<in> set ?E \<Longrightarrow> kind (snd e) \<noteq> Some ''Secret''"
    using kind_explicit_entries by fastforce
  have e2: "\<And>e. e \<in> set (fold secretVirtuals ?secs ?E) \<Longrightarrow> kind (snd e) \<noteq> Some ''WorkloadIdentity''"
    using kind_secret_entries kind_explicit_entries by fastforce
  have code: "credentialsBindings (setCredentials c s) = ?code"
    by (simp add: setCredentials_normal)
  have "credentialsBindings (spec_replaceAll c s) =
      fold specSynth (map (\<lambda>i. i\<lparr>kind := Some ''WorkloadIdentity''\<rparr>) ?wis)
        (fold specSynth (map (\<lambda>i. i\<lparr>kind := Some ''Secret''\<rparr>) ?secs) ?E)"
    by (simp add: spec_replaceAll_normal fold_specStore_tagged [OF k(1)]
        fold_specStore_tagged [OF k(2)] fold_specStore_tagged [OF k(3)]
        owners_of_storeTagged [OF d(1)] owners_of_storeTagged [OF d(2)] x)
  also have "fold specSynth (map (\<lambda>i. i\<lparr>kind := Some ''Secret''\<rparr>) ?secs) ?E =
      fold secretVirtuals ?secs ?E"
    by (rule fold_specSynth_secrets [OF p(1) d(1) e1])
  also have "fold specSynth (map (\<lambda>i. i\<lparr>kind := Some ''WorkloadIdentity''\<rparr>) ?wis)
      (fold secretVirtuals ?secs ?E) = ?spec"
    by (rule fold_specSynth_workloadIdentities [OF p(3) d(2) e2])
  finally have spec: "credentialsBindings (spec_replaceAll c s) = ?spec" .
  have "map_of (fold explicitBinding ?cbs (fold secretVirtuals ?secs [])) =
      map_of (fold secretVirtuals ?secs []) ++ map_of ?E"
    by (rule map_of_fold_explicitBinding)
  also have "\<dots> = map_of ?E ++ map_of (fold secretVirtuals ?secs [])"
    by (rule map_add_comm) (use explicit_secret_disjoint [OF p(2) p(1)] in blast)
  also have "\<dots> = map_of (fold secretVirtuals ?secs ?E)"
    by (rule map_of_fold_secretVirtuals [symmetric])
  finally have "map_of ?code = map_of ?spec"
    using map_of_fold_workloadIdentityVirtuals [of ?wis "fold explicitBinding ?cbs (fold secretVirtuals ?secs [])"]
      map_of_fold_workloadIdentityVirtuals [of ?wis "fold secretVirtuals ?secs ?E"]
    by simp
  then show ?thesis by (simp only: code spec)
qed


section \<open>Failure of the data source\<close>

text \<open>
  Claim C1. When the call to the data source made by \<^verbatim>\<open>fetchCredentials\<close> fails, the
  error is thrown on to the caller and each of the five mappings (secret-bindings,
  secrets, credentials-bindings, workload-identities, quotas) is empty afterwards,
  whatever the store held before and whatever the error is.
\<close>

theorem fetchCredentials_failure_resets:
  "fetchCredentials (Inl err) s =
     (Some err, \<lparr>secretBindings = [], secrets = [], credentialsBindings = [],
                workloadIdentities = [], quotas = []\<rparr>)"
  by (simp add: fetchCredentials_def reset_def)

text \<open>
  Claim C9. When the call to the data source made by \<^verbatim>\<open>createCredential\<close> or by
  \<^verbatim>\<open>updateCredential\<close> fails, the error is thrown on to the caller and the store is
  exactly what it was before the call: no reset, no partial change.
\<close>

theorem create_update_failure_keeps_state:
  "createCredential (Inl err) s = (Inl err, s)
   \<and> updateCredential params (Inl err) s = (Inl err, s)"
  by (simp add: createCredential_def updateCredential_def)


section \<open>The capability extractor\<close>

text \<open>
  Claim C8. For every label mapping the capability extractor returns exactly the label
  keys that start with \<^verbatim>\<open>provider.shoot.gardener.cloud/\<close> and whose value is the string
  \<^verbatim>\<open>true\<close>, each with the prefix stripped, in the insertion order of the label mapping
  (the enumeration order of \<^verbatim>\<open>Object.entries\<close> moves array-index keys to the front, and
  none of those carries the prefix). A missing or empty label mapping gives the empty
  sequence. The last conjunct reads the result backwards: putting the prefix back on
  each tag and pairing it with \<^verbatim>\<open>true\<close> gives the selected labels themselves.
\<close>

theorem providerTypesFromLabels_spec:
  "providerPrefix = ''provider.shoot.gardener.cloud/''
   \<and> providerTypesFromLabels None = []
   \<and> providerTypesFromLabels (Some []) = []
   \<and> providerTypesFromLabels (Some l) =
       map (\<lambda>e. drop (length providerPrefix) (fst e))
         (filter (\<lambda>e. startsWith (fst e) providerPrefix \<and> snd e = ''true'') l)
   \<and> map (\<lambda>t. (providerPrefix @ t, ''true'')) (providerTypesFromLabels (Some l)) =
       filter (\<lambda>e. startsWith (fst e) providerPrefix \<and> snd e = ''true'') l"
proof -
  let ?P = "\<lambda>e::string \<times> string. snd e = ''true'' \<and> startsWith (fst e) providerPrefix"
  let ?Q = "\<lambda>e::string \<times> string. startsWith (fst e) providerPrefix \<and> snd e = ''true''"
  have c: "?P = ?Q" by auto
  have e: "filter ?P (object_entries m) = filter ?Q m" for m
    unfolding c by (rule filter_object_entries) (simp add: prefixed_not_index)
  have n: "object_entries ([] :: string object) = []"
    by (simp add: object_entries_def)
  have a: "providerTypesFromLabels (Some m) =
      map (\<lambda>e. drop (length providerPrefix) (fst e)) (filter ?Q m)" for m
    by (simp add: providerTypesFromLabels_def e)
  have r: "map (\<lambda>t. (providerPrefix @ t, ''true''))
      (map (\<lambda>e. drop (length providerPrefix) (fst e)) (filter ?Q m)) = filter ?Q m" for m
    by (induction m) (auto simp: startsWith_strip prod_eq_iff)
  have "providerTypesFromLabels None = []"
    by (simp add: providerTypesFromLabels_def n)
  moreover have "providerTypesFromLabels (Some []) = []"
    by (simp add: a)
  moreover have "map (\<lambda>t. (providerPrefix @ t, ''true''))
      (providerTypesFromLabels (Some l)) = filter ?Q l"
    by (simp only: a r)
  ultimately show ?thesis using a providerPrefix_def by blast
qed


section \<open>Refreshing the virtual bindings of a secret\<close>

text \<open>
  Claim C2. For every store whose credentials-bindings mapping has each key once, and
  every secret, the loop that drops the secret's old virtual bindings keeps, in their
  order, exactly the entries that are not both of kind \<^verbatim>\<open>Secret\<close> (the kind of the owner,
  which the loop compares with as a literal) and stored under the secret's key or under
  a key that starts with the secret's key followed by a slash. So the whole refresh
  removes an entry only if it is of that kind and under such a key. In particular an
  explicit record of kind \<^verbatim>\<open>CredentialsBinding\<close> with the namespace and name of the
  secret, stored under its own key, is still stored there, unchanged, after the
  refresh. The refresh is what
  \<^verbatim>\<open>_updateCloudProviderCredential\<close> does to the credentials-bindings mapping when it
  is given a secret and no binding.
\<close>

theorem refresh_removes_only_secret_virtuals:
  assumes "wf_object cb"
  shows "fold (dropVirtualStep (namespaceNameKey (metadata x))) (object_keys cb) cb =
           filter (\<lambda>e. \<not> (kind (snd e) = Some ''Secret''
                          \<and> (fst e = namespaceNameKey (metadata x)
                              \<or> startsWith (fst e) (namespaceNameKey (metadata x) @ ''/'')))) cb
       \<and> ((k, v) \<in> set cb \<and> k \<notin> fst ` set (refreshVirtualBindings x cb) \<longrightarrow>
            kind v = Some ''Secret''
            \<and> (k = namespaceNameKey (metadata x)
                \<or> startsWith k (namespaceNameKey (metadata x) @ ''/'')))
       \<and> (obj_get cb (namespaceNameKey (metadata b)) = Some b
            \<and> kind b = Some ''CredentialsBinding''
            \<and> namespace (metadata b) = namespace (metadata x)
            \<and> name (metadata b) = name (metadata x) \<longrightarrow>
          obj_get (refreshVirtualBindings x cb) (namespaceNameKey (metadata b)) = Some b)
       \<and> credentialsBindings (updateCloudProviderCredential None (Some x) s) =
            refreshVirtualBindings x (credentialsBindings s)"
proof -
  let ?K = "namespaceNameKey (metadata x)"
  let ?cb = "refreshVirtualBindings x cb"
  note m = map_of_refreshVirtualBindings [OF assms, of x]
  have a: "kind v = Some ''Secret'' \<and> (k = ?K \<or> startsWith k (?K @ ''/''))"
    if h: "(k, v) \<in> set cb" "k \<notin> fst ` set ?cb"
  proof -
    have "map_of cb k = Some v" using h(1) assms by (simp add: map_of_wf_iff)
    moreover have "map_of ?cb k = None" using h(2) by (simp add: map_of_eq_None_iff)
    ultimately have "virtualOfSecret ?K (k, v)"
      using m [of k] by (auto split: if_splits)
    then show ?thesis by (simp add: virtualOfSecret_def)
  qed
  have b: "obj_get ?cb (namespaceNameKey (metadata b)) = Some b"
    if h: "obj_get cb (namespaceNameKey (metadata b)) = Some b"
      "kind b = Some ''CredentialsBinding''"
      "namespace (metadata b) = namespace (metadata x)" "name (metadata b) = name (metadata x)"
  proof -
    have k: "namespaceNameKey (metadata b) = ?K" using h(3,4) by (simp add: namespaceNameKey_def)
    have "?K \<notin> (\<lambda>t. ?K @ ''/'' @ t) ` T" for T by auto
    moreover have "\<not> virtualOfSecret ?K (?K, b)" using h(2) by (simp add: virtualOfSecret_def)
    ultimately show ?thesis using h(1) m [of ?K] by (simp add: k obj_get_def)
  qed
  have "filter (\<lambda>e. \<not> virtualOfSecret ?K e) cb =
      filter (\<lambda>e. \<not> (kind (snd e) = Some ''Secret''
                     \<and> (fst e = ?K \<or> startsWith (fst e) (?K @ ''/'')))) cb"
    by (rule filter_cong) (auto simp: virtualOfSecret_def)
  then have c: "fold (dropVirtualStep ?K) (object_keys cb) cb =
      filter (\<lambda>e. \<not> (kind (snd e) = Some ''Secret''
                     \<and> (fst e = ?K \<or> startsWith (fst e) (?K @ ''/'')))) cb"
    by (simp only: drop_all_virtual [OF assms])
  show ?thesis using a b c by (simp add: update_secret_only)
qed

theorem refresh_removes_only_secret_virtuals_witness:
  "wf_object [(''a/s1'', ex_binding),
              (''a/s1/aws'', secretVirtualBinding (ex_secret [''aws'']) ''aws'')]
   \<and> obj_get (refreshVirtualBindings (ex_secret [''gcp''])
         [(''a/s1'', ex_binding),
          (''a/s1/aws'', secretVirtualBinding (ex_secret [''aws'']) ''aws'')]) ''a/s1''
       = Some ex_binding
   \<and> ''a/s1/aws'' \<notin> fst ` set (refreshVirtualBindings (ex_secret [''gcp''])
         [(''a/s1'', ex_binding),
          (''a/s1/aws'', secretVirtualBinding (ex_secret [''aws'']) ''aws'')])
   \<and> kind (secretVirtualBinding (ex_secret [''aws'']) ''aws'') = Some ''Secret''"
proof -
  let ?cb = "[(''a/s1'', ex_binding),
              (''a/s1/aws'', secretVirtualBinding (ex_secret [''aws'']) ''aws'')]"
  have h: "wf_object ?cb" by (simp add: wf_object_def)
  have p: "obj_get ?cb (namespaceNameKey (metadata ex_binding)) = Some ex_binding
      \<and> kind ex_binding = Some ''CredentialsBinding''
      \<and> namespace (metadata ex_binding) = namespace (metadata (ex_secret [''gcp'']))
      \<and> name (metadata ex_binding) = name (metadata (ex_secret [''gcp'']))"
    by (simp add: ex_defs obj_get_def namespaceNameKey_def)
  have k: "namespaceNameKey (metadata ex_binding) = ''a/s1''"
    by (simp add: ex_defs namespaceNameKey_def)
  have q: "(''a/s1/aws'', secretVirtualBinding (ex_secret [''aws'']) ''aws'') \<in> set ?cb
      \<and> ''a/s1/aws'' \<notin> fst ` set (refreshVirtualBindings (ex_secret [''gcp'']) ?cb)"
    by (simp add: ex_defs eval_defs)
  note t = refresh_removes_only_secret_virtuals [OF h, where k = "''a/s1/aws''"
      and v = "secretVirtualBinding (ex_secret [''aws'']) ''aws''"
      and x = "ex_secret [''gcp'']" and b = ex_binding]
  from t p q h show ?thesis unfolding k by blast
qed

text \<open>
  Claim C3. Refreshing is idempotent: updating the store twice with the same secret
  leaves the credentials-bindings mapping with the same keys and the same record under
  each key as updating it once (the same set of entries, and the same lookup function),
  and the four other mappings are the same as well. This refresh of a secret is the only
  one the store has for a single owner; the virtual bindings of a workload identity are
  made by the full refresh only, and the full refresh run twice on the same collections
  gives what it gives run once.
\<close>

theorem refresh_twice_same_bindings:
  assumes "wf_object (credentialsBindings s)"
  shows "set (credentialsBindings (updateCloudProviderCredential None (Some x)
                 (updateCloudProviderCredential None (Some x) s))) =
         set (credentialsBindings (updateCloudProviderCredential None (Some x) s))
       \<and> map_of (credentialsBindings (updateCloudProviderCredential None (Some x)
                 (updateCloudProviderCredential None (Some x) s))) =
         map_of (credentialsBindings (updateCloudProviderCredential None (Some x) s))
       \<and> wf_object (credentialsBindings (updateCloudProviderCredential None (Some x)
                 (updateCloudProviderCredential None (Some x) s)))
       \<and> secrets (updateCloudProviderCredential None (Some x)
                 (updateCloudProviderCredential None (Some x) s)) =
         secrets (updateCloudProviderCredential None (Some x) s)
       \<and> secretBindings (updateCloudProviderCredential None (Some x)
                 (updateCloudProviderCredential None (Some x) s)) =
         secretBindings (updateCloudProviderCredential None (Some x) s)
       \<and> workloadIdentities (updateCloudProviderCredential None (Some x)
                 (updateCloudProviderCredential None (Some x) s)) =
         workloadIdentities (updateCloudProviderCredential None (Some x) s)
       \<and> quotas (updateCloudProviderCredential None (Some x)
                 (updateCloudProviderCredential None (Some x) s)) =
         quotas (updateCloudProviderCredential None (Some x) s)
       \<and> setCredentials c (setCredentials c s) = setCredentials c s"
proof -
  let ?K = "namespaceNameKey (metadata x)"
  let ?cb = "credentialsBindings s"
  let ?cb1 = "refreshVirtualBindings x ?cb"
  let ?cb2 = "refreshVirtualBindings x ?cb1"
  have w1: "wf_object ?cb1" by (rule wf_refreshVirtualBindings [OF assms])
  have w2: "wf_object ?cb2" by (rule wf_refreshVirtualBindings [OF w1])
  have "map_of ?cb2 k = map_of ?cb1 k" for k
    unfolding map_of_refreshVirtualBindings [OF w1, of x k]
    unfolding map_of_refreshVirtualBindings [OF assms, of x k]
    by (simp split: option.splits)
  then have m: "map_of ?cb2 = map_of ?cb1" by (rule ext)
  have e: "set ?cb2 = set ?cb1" by (rule wf_set_eq [OF w2 w1 m])
  have f: "setCredentials c (setCredentials c s) = setCredentials c s"
    by (rule setCredentials_forgets)
  show ?thesis
    by (simp add: update_secret_only lodash_set_idem e m w2 f)
qed

theorem refresh_twice_same_bindings_witness:
  "wf_object (credentialsBindings (ex_state [(''a/s1'', ex_binding)]))
   \<and> set (credentialsBindings (updateCloudProviderCredential None (Some (ex_secret [''aws'']))
            (updateCloudProviderCredential None (Some (ex_secret [''aws'']))
               (ex_state [(''a/s1'', ex_binding)])))) =
     set (credentialsBindings (updateCloudProviderCredential None (Some (ex_secret [''aws'']))
            (ex_state [(''a/s1'', ex_binding)])))"
proof -
  have h: "wf_object (credentialsBindings (ex_state [(''a/s1'', ex_binding)]))"
    by (simp add: wf_object_def ex_state_def)
  from refresh_twice_same_bindings [OF h, where x = "ex_secret [''aws'']"] h
  show ?thesis by blast
qed


text \<open>
  Claim C4, for secrets. Let a secret be written through the single-resource update
  path, and then again, under the same key, with another label set. Afterwards each
  capability tag \<open>t\<close> of the new label set has its virtual binding, built from the new
  record, under the owner's key followed by a slash and \<open>t\<close>, and a tag that only the
  old label set had has no entry under that key: nothing of the old label set is left.
  (With old tags A, B and new tags B, C: entries for B and C, none for A.) More
  generally, after the update of any store with a secret, every entry of kind
  \<^verbatim>\<open>Secret\<close> under the secret's key or under a key that starts with it and a slash is
  the virtual binding of one of the secret's present tags.
\<close>

theorem secret_label_change_consistent:
  assumes "wf_object (credentialsBindings s)"
    and "namespaceNameKey (metadata x') = namespaceNameKey (metadata x)"
  shows "(t \<in> set (providerTypesFromLabels (labels (metadata x'))) \<longrightarrow>
            obj_get (credentialsBindings (updateCloudProviderCredential None (Some x')
                (updateCloudProviderCredential None (Some x) s)))
              (namespaceNameKey (metadata x) @ ''/'' @ t) = Some (secretVirtualBinding x' t))
       \<and> (t \<in> set (providerTypesFromLabels (labels (metadata x)))
            \<and> t \<notin> set (providerTypesFromLabels (labels (metadata x'))) \<longrightarrow>
            obj_get (credentialsBindings (updateCloudProviderCredential None (Some x')
                (updateCloudProviderCredential None (Some x) s)))
              (namespaceNameKey (metadata x) @ ''/'' @ t) = None)
       \<and> (obj_get (credentialsBindings (updateCloudProviderCredential None (Some x') s)) k = Some v
            \<and> kind v = Some ''Secret''
            \<and> (k = namespaceNameKey (metadata x')
                \<or> startsWith k (namespaceNameKey (metadata x') @ ''/'')) \<longrightarrow>
            (\<exists>t. t \<in> set (providerTypesFromLabels (labels (metadata x')))
                 \<and> k = namespaceNameKey (metadata x') @ ''/'' @ t
                 \<and> v = secretVirtualBinding x' t))"
proof -
  let ?K = "namespaceNameKey (metadata x)"
  let ?f = "\<lambda>t. ?K @ ''/'' @ t"
  let ?T = "set (providerTypesFromLabels (labels (metadata x)))"
  let ?T' = "set (providerTypesFromLabels (labels (metadata x')))"
  let ?cb1 = "refreshVirtualBindings x (credentialsBindings s)"
  let ?cb2 = "refreshVirtualBindings x' ?cb1"
  have w1: "wf_object ?cb1" by (rule wf_refreshVirtualBindings [OF assms(1)])
  have i: "(?f t \<in> ?f ` A) = (t \<in> A)" for A
    by (rule inj_image_mem_iff) (rule inj_virtual_key)
  have d: "drop (length ?K + 1) (?f t) = t" by simp
  have m2: "map_of ?cb2 (?f t) =
      (if t \<in> ?T' then Some (secretVirtualBinding x' t)
       else (case map_of ?cb1 (?f t) of None \<Rightarrow> None
             | Some v \<Rightarrow> if virtualOfSecret ?K (?f t, v) then None else Some v))"
    unfolding map_of_refreshVirtualBindings [OF w1] assms(2) i d by (rule refl)
  have m1: "t \<in> ?T \<Longrightarrow> map_of ?cb1 (?f t) = Some (secretVirtualBinding x t)"
    unfolding map_of_refreshVirtualBindings [OF assms(1)] i d by simp
  have v: "virtualOfSecret ?K (?f t, secretVirtualBinding x t)"
    by (simp add: virtualOfSecret_def startsWith_def secretVirtualBinding_def)
  have a: "t \<in> ?T' \<Longrightarrow> map_of ?cb2 (?f t) = Some (secretVirtualBinding x' t)"
    using m2 by simp
  have b: "t \<in> ?T \<Longrightarrow> t \<notin> ?T' \<Longrightarrow> map_of ?cb2 (?f t) = None"
    using m2 m1 v by simp
  have c: "obj_get (refreshVirtualBindings x' (credentialsBindings s)) k = Some v
            \<and> kind v = Some ''Secret''
            \<and> (k = namespaceNameKey (metadata x')
                \<or> startsWith k (namespaceNameKey (metadata x') @ ''/'')) \<longrightarrow>
            (\<exists>t. t \<in> set (providerTypesFromLabels (labels (metadata x')))
                 \<and> k = namespaceNameKey (metadata x') @ ''/'' @ t
                 \<and> v = secretVirtualBinding x' t)"
    by (rule refresh_leaves_no_stale [OF assms(1)])
  show ?thesis
    unfolding update_secret_only obj_get_def using a b c [unfolded obj_get_def] by simp
qed

theorem secret_label_change_consistent_witness:
  "wf_object (credentialsBindings (ex_state []))
   \<and> namespaceNameKey (metadata (ex_secret [''gcp'', ''azure''])) =
       namespaceNameKey (metadata (ex_secret [''aws'', ''gcp'']))
   \<and> providerTypesFromLabels (labels (metadata (ex_secret [''aws'', ''gcp'']))) = [''aws'', ''gcp'']
   \<and> providerTypesFromLabels (labels (metadata (ex_secret [''gcp'', ''azure'']))) = [''gcp'', ''azure'']
   \<and> obj_get (credentialsBindings
         (updateCloudProviderCredential None (Some (ex_secret [''gcp'', ''azure'']))
           (updateCloudProviderCredential None (Some (ex_secret [''aws'', ''gcp''])) (ex_state []))))
         (namespaceNameKey (metadata (ex_secret [''aws'', ''gcp''])) @ ''/'' @ ''aws'') = None"
proof -
  have h: "wf_object (credentialsBindings (ex_state []))"
    by (simp add: ex_defs wf_object_def)
  have k: "namespaceNameKey (metadata (ex_secret [''gcp'', ''azure''])) =
       namespaceNameKey (metadata (ex_secret [''aws'', ''gcp'']))"
    by (simp add: ex_defs namespaceNameKey_def)
  have t1: "providerTypesFromLabels (labels (metadata (ex_secret [''aws'', ''gcp'']))) = [''aws'', ''gcp'']"
    by (simp add: ex_defs eval_defs)
  have t2: "providerTypesFromLabels (labels (metadata (ex_secret [''gcp'', ''azure'']))) = [''gcp'', ''azure'']"
    by (simp add: ex_defs eval_defs)
  have m: "''aws'' \<in> set (providerTypesFromLabels (labels (metadata (ex_secret [''aws'', ''gcp'']))))
      \<and> ''aws'' \<notin> set (providerTypesFromLabels (labels (metadata (ex_secret [''gcp'', ''azure'']))))"
    unfolding t1 t2 by simp
  from secret_label_change_consistent [OF h k, where t = "''aws''"] m h k t1 t2
  show ?thesis by blast
qed

text \<open>
  Claim C4, for workload identities: the update path has no branch for them. A workload
  identity with tags aws and gcp comes in by a full fetch and is then handed to
  \<^verbatim>\<open>_updateCloudProviderCredential\<close> with tags gcp and azure, in either of its two
  arguments. As the secret, only entries of kind \<^verbatim>\<open>Secret\<close> are dropped; as the binding,
  its kind matches neither branch and nothing is written. Both ways the entry under
  \<^verbatim>\<open>a/wi1/aws\<close>, made from the old label set, is still there.
\<close>

theorem workloadIdentity_label_change_counterexample:
  "obj_get (credentialsBindings
      (updateCloudProviderCredential None (Some (ex_workloadIdentity [''gcp'', ''azure'']))
        (setCredentials (ex_credentials None None (Some [ex_workloadIdentity [''aws'', ''gcp'']]))
           (ex_state [])))) ''a/wi1/aws''
     = Some (workloadIdentityVirtualBinding (ex_workloadIdentity [''aws'', ''gcp'']) ''aws'')
   \<and> obj_get (credentialsBindings
      (updateCloudProviderCredential (Some (ex_workloadIdentity [''gcp'', ''azure''])) None
        (setCredentials (ex_credentials None None (Some [ex_workloadIdentity [''aws'', ''gcp'']]))
           (ex_state [])))) ''a/wi1/aws''
     = Some (workloadIdentityVirtualBinding (ex_workloadIdentity [''aws'', ''gcp'']) ''aws'')
   \<and> obj_get (credentialsBindings
      (updateCloudProviderCredential (Some (ex_workloadIdentity [''gcp'', ''azure''])) None
        (setCredentials (ex_credentials None None (Some [ex_workloadIdentity [''aws'', ''gcp'']]))
           (ex_state [])))) ''a/wi1/azure'' = None
   \<and> providerTypesFromLabels (labels (metadata (ex_workloadIdentity [''aws'', ''gcp''])))
       = [''aws'', ''gcp'']
   \<and> providerTypesFromLabels (labels (metadata (ex_workloadIdentity [''gcp'', ''azure''])))
       = [''gcp'', ''azure'']"
  by (simp add: ex_defs ex_credentials_def eval_defs Let_def)


section \<open>The full refresh\<close>

text \<open>
  Claim C5. The data source answers with the one secret of namespace \<^verbatim>\<open>a\<close>, name
  \<^verbatim>\<open>s1\<close>, uid \<^verbatim>\<open>u1\<close> and the label \<^verbatim>\<open>provider.shoot.gardener.cloud/aws\<close> set to
  \<^verbatim>\<open>true\<close>, every other collection being missing or empty. Whatever the store held,
  the fetch succeeds and the list of all bindings has length 1; its element is stored
  under the key \<^verbatim>\<open>a/s1/aws\<close>, has kind \<^verbatim>\<open>Secret\<close>, provider type \<^verbatim>\<open>aws\<close> and uid
  \<^verbatim>\<open>u1-aws\<close>.
\<close>

theorem fetch_one_secret_end_to_end:
  "fetchCredentials (Inr (ex_fetched None)) s =
     (None, \<lparr>secretBindings = [],
             secrets = [(''a/s1'', \<lparr>kind = Some ''Secret'', apiVersion = None,
               metadata = \<lparr>namespace = ''a'', name = ''s1'', uid = ''u1'',
                 labels = Some [(''provider.shoot.gardener.cloud/aws'', ''true'')]\<rparr>,
               provider = None, secretRef = None, credentialsRef = None, rest = []\<rparr>)],
             credentialsBindings = [(''a/s1/aws'', ex_virtual)],
             workloadIdentities = [], quotas = []\<rparr>)
   \<and> fetchCredentials (Inr (ex_fetched (Some []))) s = fetchCredentials (Inr (ex_fetched None)) s
   \<and> cloudProviderBindingList (snd (fetchCredentials (Inr (ex_fetched None)) s)) = [ex_virtual]
   \<and> length (cloudProviderBindingList (snd (fetchCredentials (Inr (ex_fetched None)) s))) = 1
   \<and> kind ex_virtual = Some ''Secret''
   \<and> map_option ptype (provider ex_virtual) = Some ''aws''
   \<and> uid (metadata ex_virtual) = ''u1-aws''"
  by (simp add: ex_fetched_def ex_virtual_def eval_defs)

text \<open>
  Claim C10. Every virtual binding that the full refresh leaves in the
  credentials-bindings mapping (an entry whose kind is not \<^verbatim>\<open>CredentialsBinding\<close>), and
  every entry that the refresh of a secret adds, is stored under the key of an owner
  followed by a slash and one of the owner's tags, and carries the owner's namespace and
  name; only its uid differs, being the owner's uid, a dash and the tag. The key
  computed from its metadata is therefore the owner's key and not the key it is stored
  under. The refresh of a secret does store such an entry for every tag of the secret.
\<close>

theorem virtual_binding_keeps_owner_identity:
  "((k, v) \<in> set (credentialsBindings (setCredentials c s))
      \<and> kind v \<noteq> Some ''CredentialsBinding'' \<longrightarrow>
      (\<exists>owner t. (owner \<in> set (orEmpty (c_secrets c))
                    \<or> owner \<in> set (orEmpty (c_workloadIdentities c)))
                 \<and> t \<in> set (providerTypesFromLabels (labels (metadata owner)))
                 \<and> carriesOwnerIdentity owner t k v))
   \<and> ((k, v) \<in> set (refreshVirtualBindings x cb) \<and> (k, v) \<notin> set cb \<longrightarrow>
      (\<exists>t. t \<in> set (providerTypesFromLabels (labels (metadata x)))
           \<and> carriesOwnerIdentity x t k v))
   \<and> (t \<in> set (providerTypesFromLabels (labels (metadata x))) \<longrightarrow>
        obj_get (refreshVirtualBindings x cb) (namespaceNameKey (metadata x) @ ''/'' @ t)
          = Some (secretVirtualBinding x t)
        \<and> carriesOwnerIdentity x t (namespaceNameKey (metadata x) @ ''/'' @ t)
            (secretVirtualBinding x t))"
proof -
  have a: "\<exists>owner t. (owner \<in> set (orEmpty (c_secrets c))
                    \<or> owner \<in> set (orEmpty (c_workloadIdentities c)))
                 \<and> t \<in> set (providerTypesFromLabels (labels (metadata owner)))
                 \<and> carriesOwnerIdentity owner t k v"
    if h: "(k, v) \<in> set (credentialsBindings (setCredentials c s))"
      "kind v \<noteq> Some ''CredentialsBinding''"
  proof -
    from h(1) set_cb_setCredentials [of c s]
    consider (sec) item where "item \<in> set (orEmpty (c_secrets c))" "(k, v) \<in> secretWrites item"
      | (expl) "(k, v) \<in> explicitWrite ` set (orEmpty (c_credentialsBindings c))"
      | (wi) item where "item \<in> set (orEmpty (c_workloadIdentities c))"
          "(k, v) \<in> workloadIdentityWrites item"
      by auto
    then show ?thesis
    proof cases
      case sec
      then show ?thesis
        using secretVirtualBinding_identity [of item] by (auto simp: secretWrites_def)
    next
      case expl
      then show ?thesis using h(2) by (auto simp: explicitWrite_def)
    next
      case wi
      then show ?thesis
        using workloadIdentityVirtualBinding_identity [of item]
        by (auto simp: workloadIdentityWrites_def)
    qed
  qed
  have b: "\<exists>t. t \<in> set (providerTypesFromLabels (labels (metadata x)))
           \<and> carriesOwnerIdentity x t k v"
    if h: "(k, v) \<in> set (refreshVirtualBindings x cb)" "(k, v) \<notin> set cb"
  proof -
    from h set_refreshVirtualBindings [of x cb]
    obtain t where "t \<in> set (providerTypesFromLabels (labels (metadata x)))"
      "k = namespaceNameKey (metadata x) @ ''/'' @ t" "v = secretVirtualBinding x t"
      by auto
    then show ?thesis
      using secretVirtualBinding_identity [of x t "kind x"] by auto
  qed
  have c: "obj_get (refreshVirtualBindings x cb) (namespaceNameKey (metadata x) @ ''/'' @ t)
          = Some (secretVirtualBinding x t)
        \<and> carriesOwnerIdentity x t (namespaceNameKey (metadata x) @ ''/'' @ t)
            (secretVirtualBinding x t)"
    if "t \<in> set (providerTypesFromLabels (labels (metadata x)))"
    using refresh_stores_virtuals [OF that, of cb]
      secretVirtualBinding_identity [of x t "kind x"] by simp
  show ?thesis using a b c by blast
qed

theorem virtual_binding_keeps_owner_identity_witness:
  "(''a/s1/aws'', ex_virtual) \<in> set (credentialsBindings (setCredentials (ex_fetched None) (ex_state [])))
   \<and> kind ex_virtual \<noteq> Some ''CredentialsBinding''
   \<and> (\<exists>owner t. (owner \<in> set (orEmpty (c_secrets (ex_fetched None)))
                    \<or> owner \<in> set (orEmpty (c_workloadIdentities (ex_fetched None))))
                 \<and> t \<in> set (providerTypesFromLabels (labels (metadata owner)))
                 \<and> carriesOwnerIdentity owner t ''a/s1/aws'' ex_virtual)
   \<and> namespaceNameKey (metadata ex_virtual) = ''a/s1''"
proof -
  have h: "(''a/s1/aws'', ex_virtual)
        \<in> set (credentialsBindings (setCredentials (ex_fetched None) (ex_state [])))
      \<and> kind ex_virtual \<noteq> Some ''CredentialsBinding''"
    by (simp add: ex_fetched_def ex_virtual_def ex_defs eval_defs)
  have k: "namespaceNameKey (metadata ex_virtual) = ''a/s1''"
    by (simp add: ex_virtual_def namespaceNameKey_def)
  from virtual_binding_keeps_owner_identity [where k = "''a/s1/aws''" and v = ex_virtual
      and c = "ex_fetched None" and s = "ex_state []"] h k
  show ?thesis by blast
qed

text \<open>
  Claim C7, as the code has it. The loops of the full refresh store a secret binding, a
  secret, a credentials binding and a workload identity with the kind of their mapping,
  whatever kind the source had set or not set, so a record that came with that kind is
  stored as it came; a quota is stored as supplied. Each of these steps is idempotent,
  and two insertions under the same key into a mapping with each key once leave one
  record under that key, the second one.
\<close>

theorem upsert_tags_kind:
  "obj_get (secretBindings (setSecretBinding item s)) (namespaceNameKey (metadata item))
     = Some (item\<lparr>kind := Some ''SecretBinding''\<rparr>)
   \<and> obj_get (secrets (setSecret item s)) (namespaceNameKey (metadata item))
     = Some (item\<lparr>kind := Some ''Secret''\<rparr>)
   \<and> obj_get (credentialsBindings (setCredentialsBinding item s)) (namespaceNameKey (metadata item))
     = Some (item\<lparr>kind := Some ''CredentialsBinding''\<rparr>)
   \<and> obj_get (workloadIdentities (setWorkloadIdentity item s)) (namespaceNameKey (metadata item))
     = Some (item\<lparr>kind := Some ''WorkloadIdentity''\<rparr>)
   \<and> obj_get (quotas (setQuota item s)) (namespaceNameKey (metadata item)) = Some item
   \<and> (kind item = Some ''Secret'' \<longrightarrow>
        obj_get (secrets (setSecret item s)) (namespaceNameKey (metadata item)) = Some item)
   \<and> setSecretBinding item (setSecretBinding item s) = setSecretBinding item s
   \<and> setSecret item (setSecret item s) = setSecret item s
   \<and> setCredentialsBinding item (setCredentialsBinding item s) = setCredentialsBinding item s
   \<and> setWorkloadIdentity item (setWorkloadIdentity item s) = setWorkloadIdentity item s
   \<and> setQuota item (setQuota item s) = setQuota item s
   \<and> (namespaceNameKey (metadata item2) = namespaceNameKey (metadata item) \<longrightarrow>
        (wf_object (secretBindings s) \<longrightarrow>
           filter (\<lambda>e. fst e = namespaceNameKey (metadata item))
             (secretBindings (setSecretBinding item2 (setSecretBinding item s)))
           = [(namespaceNameKey (metadata item), item2\<lparr>kind := Some ''SecretBinding''\<rparr>)])
      \<and> (wf_object (secrets s) \<longrightarrow>
           filter (\<lambda>e. fst e = namespaceNameKey (metadata item))
             (secrets (setSecret item2 (setSecret item s)))
           = [(namespaceNameKey (metadata item), item2\<lparr>kind := Some ''Secret''\<rparr>)])
      \<and> (wf_object (credentialsBindings s) \<longrightarrow>
           filter (\<lambda>e. fst e = namespaceNameKey (metadata item))
             (credentialsBindings (setCredentialsBinding item2 (setCredentialsBinding item s)))
           = [(namespaceNameKey (metadata item), item2\<lparr>kind := Some ''CredentialsBinding''\<rparr>)])
      \<and> (wf_object (workloadIdentities s) \<longrightarrow>
           filter (\<lambda>e. fst e = namespaceNameKey (metadata item))
             (workloadIdentities (setWorkloadIdentity item2 (setWorkloadIdentity item s)))
           = [(namespaceNameKey (metadata item), item2\<lparr>kind := Some ''WorkloadIdentity''\<rparr>)])
      \<and> (wf_object (quotas s) \<longrightarrow>
           filter (\<lambda>e. fst e = namespaceNameKey (metadata item))
             (quotas (setQuota item2 (setQuota item s)))
           = [(namespaceNameKey (metadata item), item2)]))"
proof -
  have g: "obj_get (obj_assign k v m) k = Some v" for k and v :: resource and m
    by (simp add: obj_get_def map_of_obj_assign)
  have stored: "obj_get (secretBindings (setSecretBinding item s)) (namespaceNameKey (metadata item))
       = Some (item\<lparr>kind := Some ''SecretBinding''\<rparr>)"
    "obj_get (secrets (setSecret item s)) (namespaceNameKey (metadata item))
       = Some (item\<lparr>kind := Some ''Secret''\<rparr>)"
    "obj_get (credentialsBindings (setCredentialsBinding item s)) (namespaceNameKey (metadata item))
       = Some (item\<lparr>kind := Some ''CredentialsBinding''\<rparr>)"
    "obj_get (workloadIdentities (setWorkloadIdentity item s)) (namespaceNameKey (metadata item))
       = Some (item\<lparr>kind := Some ''WorkloadIdentity''\<rparr>)"
    "obj_get (quotas (setQuota item s)) (namespaceNameKey (metadata item)) = Some item"
    by (simp_all add: setSecretBinding_eq setSecret_eq setCredentialsBinding_eq
        setWorkloadIdentity_eq setQuota_eq g)
  have same: "kind item = Some ''Secret'' \<Longrightarrow>
      obj_get (secrets (setSecret item s)) (namespaceNameKey (metadata item)) = Some item"
    using stored(2) by simp
  have idem: "setSecretBinding item (setSecretBinding item s) = setSecretBinding item s"
    "setSecret item (setSecret item s) = setSecret item s"
    "setCredentialsBinding item (setCredentialsBinding item s) = setCredentialsBinding item s"
    "setWorkloadIdentity item (setWorkloadIdentity item s) = setWorkloadIdentity item s"
    "setQuota item (setQuota item s) = setQuota item s"
    by (simp_all add: setSecretBinding_eq setSecret_eq setCredentialsBinding_eq
        setWorkloadIdentity_eq setQuota_eq obj_assign_idem assignVirtuals_idem)
  have f: "wf_object m \<Longrightarrow>
      filter (\<lambda>e. fst e = k) (obj_assign k v2 (obj_assign k v1 m)) = [(k, v2)]"
    for k and v1 v2 :: resource and m
    by (simp add: obj_assign_overwrite filter_key_obj_assign)
  have last: "wf_object (secretBindings s) \<Longrightarrow>
           filter (\<lambda>e. fst e = namespaceNameKey (metadata item))
             (secretBindings (setSecretBinding item2 (setSecretBinding item s)))
           = [(namespaceNameKey (metadata item), item2\<lparr>kind := Some ''SecretBinding''\<rparr>)]"
    "wf_object (secrets s) \<Longrightarrow>
           filter (\<lambda>e. fst e = namespaceNameKey (metadata item))
             (secrets (setSecret item2 (setSecret item s)))
           = [(namespaceNameKey (metadata item), item2\<lparr>kind := Some ''Secret''\<rparr>)]"
    "wf_object (credentialsBindings s) \<Longrightarrow>
           filter (\<lambda>e. fst e = namespaceNameKey (metadata item))
             (credentialsBindings (setCredentialsBinding item2 (setCredentialsBinding item s)))
           = [(namespaceNameKey (metadata item), item2\<lparr>kind := Some ''CredentialsBinding''\<rparr>)]"
    "wf_object (workloadIdentities s) \<Longrightarrow>
           filter (\<lambda>e. fst e = namespaceNameKey (metadata item))
             (workloadIdentities (setWorkloadIdentity item2 (setWorkloadIdentity item s)))
           = [(namespaceNameKey (metadata item), item2\<lparr>kind := Some ''WorkloadIdentity''\<rparr>)]"
    "wf_object (quotas s) \<Longrightarrow>
           filter (\<lambda>e. fst e = namespaceNameKey (metadata item))
             (quotas (setQuota item2 (setQuota item s)))
           = [(namespaceNameKey (metadata item), item2)]"
    if "namespaceNameKey (metadata item2) = namespaceNameKey (metadata item)"
    using that by (simp_all add: setSecretBinding_eq setSecret_eq setCredentialsBinding_eq
        setWorkloadIdentity_eq setQuota_eq f)
  show ?thesis
    using stored same idem last by blast
qed

theorem upsert_tags_kind_witness:
  "wf_object (secrets (ex_state []))
   \<and> namespaceNameKey (metadata (ex_secret [''gcp''])) = namespaceNameKey (metadata (ex_secret [''aws'']))
   \<and> filter (\<lambda>e. fst e = namespaceNameKey (metadata (ex_secret [''aws''])))
        (secrets (setSecret (ex_secret [''gcp'']) (setSecret (ex_secret [''aws'']) (ex_state []))))
      = [(namespaceNameKey (metadata (ex_secret [''aws''])),
          (ex_secret [''gcp''])\<lparr>kind := Some ''Secret''\<rparr>)]
   \<and> kind (ex_secret [''aws'']) = Some ''Secret''
   \<and> obj_get (secrets (setSecret (ex_secret [''aws'']) (ex_state [])))
        (namespaceNameKey (metadata (ex_secret [''aws'']))) = Some (ex_secret [''aws''])"
proof -
  have w: "wf_object (secrets (ex_state []))"
    by (simp add: ex_state_def wf_object_def)
  have k: "namespaceNameKey (metadata (ex_secret [''gcp''])) =
      namespaceNameKey (metadata (ex_secret [''aws'']))"
    by (simp add: ex_defs namespaceNameKey_def)
  have s: "kind (ex_secret [''aws'']) = Some ''Secret''"
    by (simp add: ex_defs)
  from upsert_tags_kind [where item = "ex_secret [''aws'']" and s = "ex_state []"
      and ?item2.0 = "ex_secret [''gcp'']"] w k s
  show ?thesis by blast
qed

text \<open>
  Claim C7, as stated, fails for a record whose source kind is not the kind of its
  mapping: the secrets loop sets \<^verbatim>\<open>item.kind = 'Secret'\<close> without looking at what is
  there, and the record is stored with the new kind.
\<close>

theorem upsert_overwrites_kind_counterexample:
  "kind (ex_resource (Some ''ConfigMap'') ''a'' ''s1'' ''u1'' []) = Some ''ConfigMap''
   \<and> map (\<lambda>e. kind (snd e))
        (secrets (setCredentials
           (ex_credentials (Some [ex_resource (Some ''ConfigMap'') ''a'' ''s1'' ''u1'' []]) None None)
           (ex_state [])))
      = [Some ''Secret'']
   \<and> obj_get (secrets (setCredentials
           (ex_credentials (Some [ex_resource (Some ''ConfigMap'') ''a'' ''s1'' ''u1'' []]) None None)
           (ex_state []))) ''a/s1''
      \<noteq> Some (ex_resource (Some ''ConfigMap'') ''a'' ''s1'' ''u1'' [])"
  by (simp add: ex_defs eval_defs)


text \<open>
  Claim C6, as stated, fails: \<^verbatim>\<open>_setCredentials\<close> does not upsert everything first and
  synthesize afterwards. It inserts the virtual bindings of a secret in the same loop
  pass that stores the secret, before the explicit credentials bindings are stored, and
  it never removes an entry. With one labelled secret and one explicit binding the
  credentials-bindings mapping, and with it the list of all bindings, comes out in the
  other order; with the same secret twice in the collection, under two label sets, the
  virtual bindings of both label sets stay, where the synthesis of the specification
  leaves those of the last one.
\<close>

theorem setCredentials_interleaves_counterexample:
  "map fst (credentialsBindings (setCredentials ex_mixed (ex_state []))) = [''a/s1/aws'', ''a/s1'']
   \<and> map fst (credentialsBindings (spec_replaceAll ex_mixed (ex_state []))) = [''a/s1'', ''a/s1/aws'']
   \<and> cloudProviderBindingList (setCredentials ex_mixed (ex_state []))
       \<noteq> cloudProviderBindingList (spec_replaceAll ex_mixed (ex_state []))
   \<and> map fst (credentialsBindings (setCredentials ex_duplicate (ex_state [])))
       = [''a/s1/aws'', ''a/s1/gcp'']
   \<and> map fst (credentialsBindings (spec_replaceAll ex_duplicate (ex_state []))) = [''a/s1/gcp'']"
  by (simp add: ex_mixed_def ex_duplicate_def ex_defs eval_defs spec_defs)

text \<open>
  Claim C6, as the code has it. For every input the result of \<^verbatim>\<open>_setCredentials\<close> does
  not depend on the store before the call, and a missing collection gives the same
  result as an empty one. Compared with the replacement of the specification, each of
  the four authoritative mappings is the same as soon as the records of its own
  collection come without a kind or with the kind of the collection (the quotas: with a
  kind, since the code never tags a quota). On the inputs described by
  \<open>regularBindings\<close>, whatever the secret bindings and the quotas are, the
  credentials-bindings mapping has the same keys with the same record under each key;
  it has each key once in both models, for every input; the entries may be in another
  order.
\<close>

theorem setCredentials_refines_replaceAll:
  "(list_all (kindIfSet ''SecretBinding'') (orEmpty (c_secretBindings c)) \<longrightarrow>
      secretBindings (setCredentials c s) = secretBindings (spec_replaceAll c s))
   \<and> (list_all (kindIfSet ''Secret'') (orEmpty (c_secrets c)) \<longrightarrow>
      secrets (setCredentials c s) = secrets (spec_replaceAll c s))
   \<and> (list_all (kindIfSet ''WorkloadIdentity'') (orEmpty (c_workloadIdentities c)) \<longrightarrow>
      workloadIdentities (setCredentials c s) = workloadIdentities (spec_replaceAll c s))
   \<and> (list_all (\<lambda>q. kind q \<noteq> None) (orEmpty (c_quotas c)) \<longrightarrow>
      quotas (setCredentials c s) = quotas (spec_replaceAll c s))
   \<and> (regularBindings c \<longrightarrow>
      set (credentialsBindings (setCredentials c s)) =
        set (credentialsBindings (spec_replaceAll c s))
      \<and> map_of (credentialsBindings (setCredentials c s)) =
        map_of (credentialsBindings (spec_replaceAll c s)))
   \<and> wf_object (credentialsBindings (setCredentials c s))
   \<and> wf_object (credentialsBindings (spec_replaceAll c s))
   \<and> setCredentials c s' = setCredentials c s
   \<and> setCredentials (withEmpty c) s = setCredentials c s"
proof -
  have sb: "secretBindings (setCredentials c s) = secretBindings (spec_replaceAll c s)"
    if "list_all (kindIfSet ''SecretBinding'') (orEmpty (c_secretBindings c))"
    by (simp add: setCredentials_normal spec_replaceAll_normal fold_specStore_tagged [OF that])
  have se: "secrets (setCredentials c s) = secrets (spec_replaceAll c s)"
    if "list_all (kindIfSet ''Secret'') (orEmpty (c_secrets c))"
    by (simp add: setCredentials_normal spec_replaceAll_normal fold_specStore_tagged [OF that])
  have wi: "workloadIdentities (setCredentials c s) = workloadIdentities (spec_replaceAll c s)"
    if "list_all (kindIfSet ''WorkloadIdentity'') (orEmpty (c_workloadIdentities c))"
    by (simp add: setCredentials_normal spec_replaceAll_normal fold_specStore_tagged [OF that])
  have qu: "quotas (setCredentials c s) = quotas (spec_replaceAll c s)"
    if "list_all (\<lambda>q. kind q \<noteq> None) (orEmpty (c_quotas c))"
    by (simp add: setCredentials_normal spec_replaceAll_normal fold_specStore_plain [OF that])
  have w1: "wf_object (credentialsBindings (setCredentials c s))"
    by (rule wf_cb_setCredentials)
  have w2: "wf_object (credentialsBindings (spec_replaceAll c s))"
    by (rule wf_cb_spec_replaceAll)
  have m: "map_of (credentialsBindings (setCredentials c s)) =
      map_of (credentialsBindings (spec_replaceAll c s))" if "regularBindings c"
    by (rule cb_refines_replaceAll [OF that])
  have st: "set (credentialsBindings (setCredentials c s)) =
      set (credentialsBindings (spec_replaceAll c s))" if "regularBindings c"
    by (rule wf_set_eq [OF w1 w2 m [OF that]])
  show ?thesis
    using sb se wi qu m st w1 w2 setCredentials_forgets [of c s' s]
      setCredentials_withEmpty [of c s]
    by blast
qed

theorem setCredentials_refines_replaceAll_witness:
  "kind (ex_resource None ''a'' ''q1'' ''u3'' []) = None
   \<and> regularBindings (ex_full None)
   \<and> set (credentialsBindings (setCredentials (ex_full None) (ex_state []))) =
       set (credentialsBindings (spec_replaceAll (ex_full None) (ex_state [])))
   \<and> list_all (kindIfSet ''SecretBinding'') (orEmpty (c_secretBindings (ex_full None)))
   \<and> secretBindings (setCredentials (ex_full None) (ex_state [])) =
       secretBindings (spec_replaceAll (ex_full None) (ex_state []))
   \<and> list_all (kindIfSet ''Secret'') (orEmpty (c_secrets (ex_full None)))
   \<and> secrets (setCredentials (ex_full None) (ex_state [])) =
       secrets (spec_replaceAll (ex_full None) (ex_state []))
   \<and> list_all (kindIfSet ''WorkloadIdentity'') (orEmpty (c_workloadIdentities (ex_full None)))
   \<and> workloadIdentities (setCredentials (ex_full None) (ex_state [])) =
       workloadIdentities (spec_replaceAll (ex_full None) (ex_state []))
   \<and> list_all (\<lambda>q. kind q \<noteq> None) (orEmpty (c_quotas (ex_full (Some ''Quota''))))
   \<and> quotas (setCredentials (ex_full (Some ''Quota'')) (ex_state [])) =
       quotas (spec_replaceAll (ex_full (Some ''Quota'')) (ex_state []))
   \<and> setCredentials (ex_full None) (ex_state [(''x/y'', ex_binding)]) =
       setCredentials (ex_full None) (ex_state [])"
proof -
  have q: "kind (ex_resource None ''a'' ''q1'' ''u3'' []) = None"
    by (simp add: ex_resource_def)
  have h: "regularBindings (ex_full None)"
    by (simp add: regularBindings_def ex_full_def ex_defs orEmpty_def
        kindIfSet_def plainIdentity_def namespaceNameKey_def)
  have k: "list_all (kindIfSet ''SecretBinding'') (orEmpty (c_secretBindings (ex_full None)))"
    "list_all (kindIfSet ''Secret'') (orEmpty (c_secrets (ex_full None)))"
    "list_all (kindIfSet ''WorkloadIdentity'') (orEmpty (c_workloadIdentities (ex_full None)))"
    "list_all (\<lambda>q. kind q \<noteq> None) (orEmpty (c_quotas (ex_full (Some ''Quota''))))"
    by (simp_all add: ex_full_def ex_defs orEmpty_def kindIfSet_def)
  from setCredentials_refines_replaceAll [where c = "ex_full None" and s = "ex_state []"
      and s' = "ex_state [(''x/y'', ex_binding)]"]
    setCredentials_refines_replaceAll [where c = "ex_full (Some ''Quota'')" and s = "ex_state []" and s' = "ex_state []"]
    q h k
  show ?thesis by blast
qed

end
